theory Spec2Isabelle
  imports Complex_Main
begin

section \<open>JavaScript values\<close>

text \<open>
  Both scripts are JavaScript. A number is a double (IEEE 754 binary64): a finite double,
  given by the real number it stands for, \<open>NaN\<close>, or one of the two infinities. The two
  zeros are one value: the sign of zero is not modelled.
\<close>

datatype jsnum = Num real | NaN | PosInf | NegInf

text \<open>
  The values that \<open>JSON.parse\<close> and \<open>res.json()\<close> produce, and \<open>undefined\<close>, which
  a read of a missing property or of an array index out of range returns. An object is
  the list of its properties, each name once.
\<close>

datatype jsval =
    JUndefined
  | JNull
  | JBool bool
  | JNum jsnum
  | JStr string
  | JArr "jsval list"
  | JObj "(string \<times> jsval) list"

text \<open>\<open>Number.isFinite\<close> on a number.\<close>

fun isFinite :: "jsnum \<Rightarrow> bool" where
  "isFinite (Num r) = True"
| "isFinite NaN = False"
| "isFinite PosInf = False"
| "isFinite NegInf = False"

text \<open>
  What \<open>if (v)\<close>, \<open>!v\<close>, \<open>v || w\<close> and \<open>v && w\<close> test: \<open>undefined\<close>, \<open>null\<close>,
  \<open>false\<close>, \<open>0\<close>, \<open>NaN\<close> and the empty string are falsy, every other value is truthy
  (every array and every object, the empty ones too).
\<close>

fun truthy :: "jsval \<Rightarrow> bool" where
  "truthy JUndefined = False"
| "truthy JNull = False"
| "truthy (JBool b) = b"
| "truthy (JNum n) = (n \<noteq> Num 0 \<and> n \<noteq> NaN)"
| "truthy (JStr s) = (s \<noteq> [])"
| "truthy (JArr xs) = True"
| "truthy (JObj kvs) = True"

text \<open>
  The numeric coercion \<open>Number(v)\<close>, which \<open>*\<close> and \<open>-\<close> also apply to their operands.
  On \<open>undefined\<close>, \<open>null\<close>, booleans and numbers it is written out. On strings, arrays
  and objects it is the parser of numeric literals of the JavaScript runtime (after
  \<open>toString\<close> for arrays and objects), which is no code of this repository: the
  parameter \<open>cv\<close> stands for it, and every theorem holds for every \<open>cv\<close>.
\<close>

fun Number_js :: "(jsval \<Rightarrow> jsnum) \<Rightarrow> jsval \<Rightarrow> jsnum" where
  "Number_js cv JUndefined = NaN"
| "Number_js cv JNull = Num 0"
| "Number_js cv (JBool b) = (if b then Num 1 else Num 0)"
| "Number_js cv (JNum n) = n"
| "Number_js cv (JStr s) = cv (JStr s)"
| "Number_js cv (JArr xs) = cv (JArr xs)"
| "Number_js cv (JObj kvs) = cv (JObj kvs)"

text \<open>
  Rounding to the nearest integer, a tie going to the even one.
\<close>

definition round_even :: "real \<Rightarrow> int" where
  "round_even x =
     (let f = \<lfloor>x\<rfloor>; d = x - of_int f
      in if d < 1 / 2 then f else if 1 / 2 < d then f + 1 else if even f then f else f + 1)"

text \<open>
  The doubles are the integer multiples \<open>n * 2 ^ k / 2 ^ 1074\<close> with \<open>n\<close> below \<open>2 ^ 53\<close>
  in magnitude: \<open>k = 0\<close> for the subnormal numbers and the first binade, \<open>k = 2045\<close> for
  the last binade, which ends at \<open>2 ^ 1024\<close>. \<open>binade X\<close> is the \<open>k\<close> of the spacing
  around a magnitude, given as \<open>X = \<bar>x\<bar> * 2 ^ 1074\<close>: the least \<open>k\<close> with
  \<open>X < 2 ^ (k + 53)\<close>, and 2046 beyond the last binade.
\<close>

definition binade :: "real \<Rightarrow> nat" where
  "binade X = (case find (\<lambda>k. X < 2 ^ (k + 53)) [0 ..< 2046] of Some k \<Rightarrow> k | None \<Rightarrow> 2046)"

text \<open>
  The double that an arithmetic operation returns for the exact result \<open>x\<close>: the nearest
  multiple of the spacing, ties to even, and an infinity when that is \<open>2 ^ 1024\<close> or
  more in magnitude. A numeric literal of the source denotes the double of its value
  in the same way.
\<close>

definition round_double :: "real \<Rightarrow> jsnum" where
  "round_double x =
     (let k = binade (\<bar>x\<bar> * 2 ^ 1074);
          y = of_int (round_even (x * 2 ^ 1074 / 2 ^ k)) * 2 ^ k / 2 ^ 1074
      in if 2 ^ 1024 \<le> \<bar>y\<bar> then (if 0 < x then PosInf else NegInf) else Num y)"

text \<open>
  The arithmetic of doubles on the four kinds of value: on two finite doubles, the exact
  result rounded.
\<close>

fun js_mul :: "jsnum \<Rightarrow> jsnum \<Rightarrow> jsnum" where
  "js_mul (Num a) (Num b) = round_double (a * b)"
| "js_mul NaN y = NaN"
| "js_mul x NaN = NaN"
| "js_mul (Num a) PosInf = (if a = 0 then NaN else if 0 < a then PosInf else NegInf)"
| "js_mul (Num a) NegInf = (if a = 0 then NaN else if 0 < a then NegInf else PosInf)"
| "js_mul PosInf (Num b) = (if b = 0 then NaN else if 0 < b then PosInf else NegInf)"
| "js_mul NegInf (Num b) = (if b = 0 then NaN else if 0 < b then NegInf else PosInf)"
| "js_mul PosInf PosInf = PosInf"
| "js_mul PosInf NegInf = NegInf"
| "js_mul NegInf PosInf = NegInf"
| "js_mul NegInf NegInf = PosInf"

fun js_div :: "jsnum \<Rightarrow> jsnum \<Rightarrow> jsnum" where
  "js_div (Num a) (Num b) =
     (if b \<noteq> 0 then round_double (a / b)
      else if a = 0 then NaN else if 0 < a then PosInf else NegInf)"
| "js_div NaN y = NaN"
| "js_div x NaN = NaN"
| "js_div (Num a) PosInf = Num 0"
| "js_div (Num a) NegInf = Num 0"
| "js_div PosInf (Num b) = (if 0 \<le> b then PosInf else NegInf)"
| "js_div NegInf (Num b) = (if 0 \<le> b then NegInf else PosInf)"
| "js_div PosInf PosInf = NaN"
| "js_div PosInf NegInf = NaN"
| "js_div NegInf PosInf = NaN"
| "js_div NegInf NegInf = NaN"

fun js_add :: "jsnum \<Rightarrow> jsnum \<Rightarrow> jsnum" where
  "js_add (Num a) (Num b) = round_double (a + b)"
| "js_add NaN y = NaN"
| "js_add x NaN = NaN"
| "js_add (Num a) PosInf = PosInf"
| "js_add (Num a) NegInf = NegInf"
| "js_add PosInf (Num b) = PosInf"
| "js_add NegInf (Num b) = NegInf"
| "js_add PosInf PosInf = PosInf"
| "js_add PosInf NegInf = NaN"
| "js_add NegInf PosInf = NaN"
| "js_add NegInf NegInf = NegInf"

text \<open>
  A property read \<open>v.k\<close> on a truthy value: the property's value on an object that has
  it, \<open>undefined\<close> otherwise (none of the property names the scripts read is a built-in
  property of a string, a number or an array).
\<close>

fun get_prop :: "jsval \<Rightarrow> string \<Rightarrow> jsval" where
  "get_prop (JObj kvs) k = (case map_of kvs k of Some v \<Rightarrow> v | None \<Rightarrow> JUndefined)"
| "get_prop v k = JUndefined"

text \<open>An array read \<open>xs[i]\<close>: \<open>undefined\<close> out of range, never an exception.\<close>

definition at_index :: "jsval list \<Rightarrow> nat \<Rightarrow> jsval" where
  "at_index xs i = (if i < length xs then xs ! i else JUndefined)"

section \<open>Presentation helpers of the weather widget\<close>

text \<open>
  \<^verbatim>\<open>const toF = (c) => (c * 9) / 5 + 32;\<close>
  The argument is the number that \<open>*\<close> sees: a caller that passes a raw JSON value
  applies \<open>Number_js\<close> first.
\<close>

definition toF :: "jsnum \<Rightarrow> jsnum" where
  "toF c = js_add (js_div (js_mul c (Num 9)) (Num 5)) (Num 32)"

text \<open>The \<open>{ icon, label }\<close> object that \<open>codeToIcon\<close> returns.\<close>

record icon_label =
  icon :: string
  label :: string

text \<open>
  \<open>codeToIcon\<close>: the coercion \<open>const c = Number(code)\<close>, the guard on a number that
  is not finite, then the chain of comparisons in the order of the source.
\<close>

definition codeToIcon :: "(jsval \<Rightarrow> jsnum) \<Rightarrow> jsval \<Rightarrow> icon_label" where
  "codeToIcon cv code =
     (let c = Number_js cv code in
      if \<not> isFinite c then \<lparr>icon = ''ri-question-line'', label = ''Unknown''\<rparr>
      else if c = Num 0 then \<lparr>icon = ''ri-sun-line'', label = ''Clear sky''\<rparr>
      else if c = Num 1 then \<lparr>icon = ''ri-sun-cloudy-line'', label = ''Mainly clear''\<rparr>
      else if c = Num 2 then \<lparr>icon = ''ri-cloudy-2-line'', label = ''Partly cloudy''\<rparr>
      else if c = Num 3 then \<lparr>icon = ''ri-cloudy-line'', label = ''Overcast''\<rparr>
      else if c = Num 45 \<or> c = Num 48 then \<lparr>icon = ''ri-mist-line'', label = ''Fog''\<rparr>
      else if c = Num 51 \<or> c = Num 53 \<or> c = Num 55
        then \<lparr>icon = ''ri-drizzle-line'', label = ''Drizzle''\<rparr>
      else if c = Num 56 \<or> c = Num 57
        then \<lparr>icon = ''ri-snowy-line'', label = ''Freezing drizzle''\<rparr>
      else if c = Num 61 \<or> c = Num 63 \<or> c = Num 65
        then \<lparr>icon = ''ri-rainy-line'', label = ''Rain''\<rparr>
      else if c = Num 66 \<or> c = Num 67
        then \<lparr>icon = ''ri-snowy-line'', label = ''Freezing rain''\<rparr>
      else if c = Num 71 \<or> c = Num 73 \<or> c = Num 75
        then \<lparr>icon = ''ri-snowy-line'', label = ''Snow''\<rparr>
      else if c = Num 77 then \<lparr>icon = ''ri-snowy-line'', label = ''Snow grains''\<rparr>
      else if c = Num 80 \<or> c = Num 81 \<or> c = Num 82
        then \<lparr>icon = ''ri-showers-line'', label = ''Showers''\<rparr>
      else if c = Num 95 then \<lparr>icon = ''ri-thunderstorms-line'', label = ''Thunderstorm''\<rparr>
      else if c = Num 96 \<or> c = Num 99
        then \<lparr>icon = ''ri-thunderstorms-line'', label = ''Thunderstorm + hail''\<rparr>
      else \<lparr>icon = ''ri-cloud-windy-line'', label = ''Variable''\<rparr>)"

text \<open>The codes that the chain of comparisons in \<open>codeToIcon\<close> names.\<close>

definition mapped_codes :: "real list" where
  "mapped_codes =
     [0, 1, 2, 3, 45, 48, 51, 53, 55, 56, 57, 61, 63, 65, 66, 67, 71, 73, 75, 77,
      80, 81, 82, 95, 96, 99]"

text \<open>Every label that \<open>codeToIcon\<close> can return.\<close>

definition all_labels :: "string list" where
  "all_labels =
     [''Unknown'', ''Clear sky'', ''Mainly clear'', ''Partly cloudy'', ''Overcast'', ''Fog'',
      ''Drizzle'', ''Freezing drizzle'', ''Rain'', ''Freezing rain'', ''Snow'',
      ''Snow grains'', ''Showers'', ''Thunderstorm'', ''Thunderstorm + hail'', ''Variable'']"

section \<open>The weather widget: configuration and state\<close>

text \<open>An entry of \<open>APP.cities\<close>.\<close>

record city =
  city_id :: string
  city_name :: string
  country :: string
  lat :: real
  lon :: real

text \<open>\<open>APP.cities\<close>, in the order of the source (names as UTF-8 bytes).\<close>

definition APP_cities :: "city list" where
  "APP_cities =
     [\<lparr>city_id = ''erbil'', city_name = ''Erbil (Hewl'' @ [CHR 0xC3, CHR 0xAA] @ ''r)'',
        country = ''Iraq'', lat = 36.1911, lon = 44.0092\<rparr>,
      \<lparr>city_id = ''sulaymaniyah'',
        city_name = ''Sulaymaniyah (Sil'' @ [CHR 0xC3, CHR 0xAA] @ ''man'' @ [CHR 0xC3, CHR 0xAE] @ '')'',
        country = ''Iraq'', lat = 35.5653, lon = 45.4329\<rparr>,
      \<lparr>city_id = ''duhok'', city_name = ''Duhok (Dihok)'',
        country = ''Iraq'', lat = 36.8667, lon = 42.95\<rparr>,
      \<lparr>city_id = ''halabja'', city_name = ''Halabja'',
        country = ''Iraq'', lat = 35.1815, lon = 45.9866\<rparr>,
      \<lparr>city_id = ''zakho'', city_name = ''Zakho'',
        country = ''Iraq'', lat = 37.1431, lon = 42.6861\<rparr>,
      \<lparr>city_id = ''kirkuk'', city_name = ''Kirkuk'',
        country = ''Iraq'', lat = 35.4681, lon = 44.3922\<rparr>]"

text \<open>\<open>APP.weather.cacheTtlMs\<close>: ten minutes, in milliseconds.\<close>

definition cacheTtlMs :: int where
  "cacheTtlMs = 10 * 60 * 1000"

text \<open>\<open>STATE.weather.units\<close>: the string \<open>c\<close> or \<open>f\<close>.\<close>

datatype units = C | F

fun units_str :: "units \<Rightarrow> string" where
  "units_str C = ''c''"
| "units_str F = ''f''"

text \<open>
  A cache entry \<open>{ ts, data }\<close> as \<open>cacheSet\<close> writes it: \<open>ts\<close> a reading of
  \<open>Date.now()\<close>, an integer number of milliseconds, and \<open>data\<close> whatever JSON value
  the response held.
\<close>

record cache_entry =
  ts :: int
  data :: jsval

datatype source = Cache | Live

text \<open>What the two weather cards show.\<close>

datatype view = Blank | Skeleton | Shown jsval source | Failed string

text \<open>
  A request to the forecast provider: the latitude and longitude of the city; every other
  parameter of the URL is a constant of \<open>APP.weather.params\<close>.
\<close>

type_synonym request = "real \<times> real"

text \<open>
  The state that the fetch flow reads and writes. \<open>units\<close>, \<open>cityId\<close>, \<open>cache\<close>,
  \<open>isLoading\<close> and \<open>lastError\<close> are the fields of \<open>STATE.weather\<close>. The others are
  the world around them: \<open>requests\<close> lists every request sent so far, \<open>inflight\<close> the
  requests sent and not yet answered, \<open>stored\<close> is the cache mapping last written to
  \<open>localStorage\<close> (\<open>None\<close> before the first write), \<open>view\<close> what is displayed.
\<close>

record world =
  units :: units
  cityId :: string
  cache :: "string \<rightharpoonup> cache_entry"
  isLoading :: bool
  lastError :: "string option"
  requests :: "request list"
  inflight :: "request list"
  stored :: "(string \<rightharpoonup> cache_entry) option"
  view :: view

text \<open>
  What the network answers. \<open>fetch\<close> rejects on a transport error, with the runtime's
  message; otherwise it resolves with a status, and \<open>res.json()\<close> either rejects (a
  body that is no JSON) or yields the parsed value.
\<close>

datatype body = BadBody string | Body jsval

datatype response = Rejected string | Http nat body

text \<open>\<open>res.ok\<close>: the status is in the range 200 to 299.\<close>

definition res_ok :: "nat \<Rightarrow> bool" where
  "res_ok status = (200 \<le> status \<and> status \<le> 299)"

text \<open>The decimal digits of a status code, as the template literal prints it.\<close>

function showNat :: "nat \<Rightarrow> string" where
  "showNat n =
     (if n < 10 then [char_of (48 + n)]
      else showNat (n div 10) @ [char_of (48 + n mod 10)])"
  by pat_completeness auto
termination
  by (relation "measure (\<lambda>n. n)") auto

declare showNat.simps [simp del]

section \<open>The weather widget: cache and fetch\<close>

text \<open>\<^verbatim>\<open>const buildKey = () => `${STATE.weather.cityId}_${STATE.weather.units}`;\<close>\<close>

definition buildKey :: "world \<Rightarrow> string" where
  "buildKey w = cityId w @ ''_'' @ units_str (units w)"

text \<open>
  \<^verbatim>\<open>const getCity = (id) => APP.cities.find((c) => c.id === id) || APP.cities[0];\<close>
  over any registry: \<open>None\<close> is the \<open>undefined\<close> that an empty registry would give.
\<close>

definition getCityIn :: "city list \<Rightarrow> string \<Rightarrow> city option" where
  "getCityIn cities i =
     (case find (\<lambda>c. city_id c = i) cities of
        Some c \<Rightarrow> Some c
      | None \<Rightarrow> (case cities of [] \<Rightarrow> None | c # cs \<Rightarrow> Some c))"

definition getCity :: "string \<Rightarrow> city option" where
  "getCity i = getCityIn APP_cities i"

text \<open>
  \<open>fromCache\<close>, with the reading of \<open>nowMs()\<close> as an argument. The result is the
  cached data or \<open>null\<close>:
  \<^verbatim>\<open>
    const entry = STATE.weather.cache[key];
    if (!entry) return null;
    if (!entry.ts || nowMs() - entry.ts > APP.weather.cacheTtlMs) return null;
    return entry.data || null;
  \<close>
\<close>

definition fromCache :: "world \<Rightarrow> int \<Rightarrow> jsval" where
  "fromCache w now =
     (case cache w (buildKey w) of
        None \<Rightarrow> JNull
      | Some entry \<Rightarrow>
          if ts entry = 0 \<or> now - ts entry > cacheTtlMs then JNull
          else if truthy (data entry) then data entry else JNull)"

text \<open>
  \<open>persistWeatherCache\<close>: the write to \<open>localStorage\<close> inside \<open>try\<close>/\<open>catch\<close>. Whether
  the write goes through (\<open>ok\<close>) is the environment's; a write that throws changes
  nothing and the exception is dropped.
\<close>

definition persistWeatherCache :: "world \<Rightarrow> bool \<Rightarrow> world" where
  "persistWeatherCache w ok = (if ok then w\<lparr>stored := Some (cache w)\<rparr> else w)"

text \<open>
  \<^verbatim>\<open>
    const cacheSet = (data) => {
      const key = buildKey();
      STATE.weather.cache[key] = { ts: nowMs(), data };
      persistWeatherCache();
    };
  \<close>
\<close>

definition cacheSet :: "world \<Rightarrow> int \<Rightarrow> jsval \<Rightarrow> bool \<Rightarrow> world" where
  "cacheSet w now d ok =
     persistWeatherCache (w\<lparr>cache := (cache w)(buildKey w \<mapsto> \<lparr>ts = now, data = d\<rparr>)\<rparr>) ok"

text \<open>
  \<open>fetchWeather\<close> is an \<open>async\<close> function: it runs up to \<open>await fetch(url)\<close>, and
  resumes when the response is there. \<open>fetchWeather_begin\<close> is the first part: it
  throws (\<open>Inl\<close> the message), returns from the cache, or sends the request and waits.
\<close>

datatype fetch_begin = Returned "string + (jsval \<times> source)" | Awaiting

definition fetchWeather_begin :: "world \<Rightarrow> bool \<Rightarrow> int \<Rightarrow> fetch_begin \<times> world" where
  "fetchWeather_begin w force now =
     (case getCity (cityId w) of
        None \<Rightarrow> (Returned (Inl ''City not found''), w)
      | Some c \<Rightarrow>
          if \<not> force \<and> truthy (fromCache w now)
          then (Returned (Inr (fromCache w now, Cache)), w)
          else (Awaiting,
                w\<lparr>requests := requests w @ [(lat c, lon c)],
                  inflight := inflight w @ [(lat c, lon c)]\<rparr>))"

text \<open>
  \<open>fetchWeather_end\<close> is the part after the response: a rejected \<open>fetch\<close>, a status
  that is not \<open>ok\<close> and a body that does not parse throw; a parsed body is stored by
  \<open>cacheSet\<close> (at the time \<open>now\<close> of that call) and returned as live data.
\<close>

definition fetchWeather_end ::
  "world \<Rightarrow> response \<Rightarrow> int \<Rightarrow> bool \<Rightarrow> (string + (jsval \<times> source)) \<times> world" where
  "fetchWeather_end w r now ok =
     (let w1 = w\<lparr>inflight := tl (inflight w)\<rparr> in
      case r of
        Rejected msg \<Rightarrow> (Inl msg, w1)
      | Http status b \<Rightarrow>
          if \<not> res_ok status
          then (Inl (''Weather request failed ('' @ showNat status @ '')''), w1)
          else (case b of
                  BadBody msg \<Rightarrow> (Inl msg, w1)
                | Body json \<Rightarrow> (Inr (json, Live), cacheSet w1 now json ok)))"

text \<open>
  What the environment supplies to one whole call of \<open>fetchWeather\<close>: the clock at the
  cache check, the response, the clock at \<open>cacheSet\<close>, whether the write to
  \<open>localStorage\<close> goes through, and the selection as it stands when the response
  arrives. The handlers of the city list and of the unit buttons write
  \<open>STATE.weather.cityId\<close> and \<open>STATE.weather.units\<close> also while a request is in flight
  (only the flow they then invoke is stopped by \<open>isLoading\<close>), and \<open>cacheSet\<close> calls
  \<open>buildKey()\<close> after the \<open>await\<close>, so it reads the selection of that moment.
\<close>

record env =
  now_check :: int
  response :: response
  now_store :: int
  storage_ok :: bool
  cityId_at_response :: string
  units_at_response :: units

text \<open>The state when the response arrives: the selection is the one the handlers left.\<close>

definition at_response :: "world \<Rightarrow> env \<Rightarrow> world" where
  "at_response w e = w\<lparr>cityId := cityId_at_response e, units := units_at_response e\<rparr>"

text \<open>
  One whole call of \<open>fetchWeather({ force })\<close>: the part before the \<open>await\<close> on the
  state of the call, the part after it on the state when the response arrives.
\<close>

definition fetchWeather ::
  "world \<Rightarrow> bool \<Rightarrow> env \<Rightarrow> (string + (jsval \<times> source)) \<times> world" where
  "fetchWeather w force e =
     (case fetchWeather_begin w force (now_check e) of
        (Returned r, w1) \<Rightarrow> (r, w1)
      | (Awaiting, w1) \<Rightarrow>
          fetchWeather_end (at_response w1 e) (response e) (now_store e) (storage_ok e))"

section \<open>The weather widget: the flow that the user interface invokes\<close>

text \<open>
  \<open>renderWeatherFromCacheOrFetch\<close> up to its \<open>await\<close>: the guard on \<open>isLoading\<close>, the
  flag and the skeleton, then the first part of \<open>fetchWeather\<close>. When that part returns
  or throws, the rest of the flow (\<open>renderWeather\<close> or the \<open>catch\<close> block, then
  \<open>finally\<close>) runs as a microtask of the same task, before any other event: the model
  runs it in the same step.
\<close>

definition finish_flow :: "(string + (jsval \<times> source)) \<Rightarrow> world \<Rightarrow> world" where
  "finish_flow r w =
     (case r of
        Inr (d, src) \<Rightarrow> w\<lparr>view := Shown d src, isLoading := False\<rparr>
      | Inl msg \<Rightarrow> w\<lparr>lastError := Some msg, view := Failed msg, isLoading := False\<rparr>)"

definition renderWeatherFromCacheOrFetch_begin :: "world \<Rightarrow> bool \<Rightarrow> int \<Rightarrow> world" where
  "renderWeatherFromCacheOrFetch_begin w force now =
     (if isLoading w then w
      else
        (case fetchWeather_begin (w\<lparr>isLoading := True, lastError := None, view := Skeleton\<rparr>)
                force now of
           (Returned r, w1) \<Rightarrow> finish_flow r w1
         | (Awaiting, w1) \<Rightarrow> w1))"

text \<open>The flow after the response: the rest of \<open>fetchWeather\<close>, then as above.\<close>

definition renderWeatherFromCacheOrFetch_end ::
  "world \<Rightarrow> response \<Rightarrow> int \<Rightarrow> bool \<Rightarrow> world" where
  "renderWeatherFromCacheOrFetch_end w r now ok =
     (case fetchWeather_end w r now ok of (res, w1) \<Rightarrow> finish_flow res w1)"

text \<open>
  One whole run of the flow, with the changes of selection that happen while the request
  is in flight.
\<close>

definition renderWeatherFromCacheOrFetch :: "world \<Rightarrow> bool \<Rightarrow> env \<Rightarrow> world" where
  "renderWeatherFromCacheOrFetch w force e =
     (if isLoading w then w
      else
        (case fetchWeather (w\<lparr>isLoading := True, lastError := None, view := Skeleton\<rparr>)
                force e of
           (r, w1) \<Rightarrow> finish_flow r w1))"

text \<open>
  The events of the page that reach the weather state, one task of the event loop each:
  \<^item> an invocation of the flow (the overlay opening, the refresh button with \<open>force\<close>);
  \<^item> a change of the city or of the units, which writes the selection, persists the
    settings and then invokes the flow; that write to \<open>localStorage\<close> is outside any
    \<open>try\<close>, so when it throws (\<open>ok\<close> false) the flow is not invoked;
  \<^item> the response to a request in flight.
\<close>

inductive step :: "world \<Rightarrow> world \<Rightarrow> bool" where
  invoke: "step w (renderWeatherFromCacheOrFetch_begin w force now)"
| select_city:
    "step w (if ok then renderWeatherFromCacheOrFetch_begin (w\<lparr>cityId := i\<rparr>) False now
             else w\<lparr>cityId := i\<rparr>)"
| select_units:
    "step w (if ok then renderWeatherFromCacheOrFetch_begin (w\<lparr>units := u\<rparr>) False now
             else w\<lparr>units := u\<rparr>)"
| respond:
    "inflight w \<noteq> [] \<Longrightarrow> step w (renderWeatherFromCacheOrFetch_end w r now ok)"

text \<open>
  The states of a page: at load \<open>isLoading\<close> is false and nothing is in flight (the
  cache, the city and the units are whatever \<open>loadPersistedState\<close> found).
\<close>

inductive reachable :: "world \<Rightarrow> bool" where
  at_load: "\<not> isLoading w \<Longrightarrow> inflight w = [] \<Longrightarrow> reachable w"
| after_step: "reachable w \<Longrightarrow> step w w' \<Longrightarrow> reachable w'"

section \<open>The weather widget: the forecast rows\<close>

text \<open>
  \<open>formatNumber(n, digits)\<close>: a dash when \<open>Number(n)\<close> is not finite, otherwise the
  number in the locale's notation with that many fraction digits (the notation is the
  runtime's; the model keeps the number and the digits).
\<close>

datatype shown = Dash | Localized real nat

definition formatNumber :: "(jsval \<Rightarrow> jsnum) \<Rightarrow> jsval \<Rightarrow> nat \<Rightarrow> shown" where
  "formatNumber cv n digits =
     (case Number_js cv n of Num r \<Rightarrow> Localized r digits | _ \<Rightarrow> Dash)"

text \<open>
  \<^verbatim>\<open>const times = h && Array.isArray(h.time) ? h.time : [];\<close>
  and the same for the other four arrays.
\<close>

definition array_field :: "jsval \<Rightarrow> string \<Rightarrow> jsval list" where
  "array_field h k =
     (if truthy h then (case get_prop h k of JArr xs \<Rightarrow> xs | _ \<Rightarrow> []) else [])"

text \<open>\<^verbatim>\<open>const h = data && data.hourly ? data.hourly : null;\<close>\<close>

definition hourly_of :: "jsval \<Rightarrow> jsval" where
  "hourly_of d =
     (if truthy d \<and> truthy (get_prop d ''hourly'') then get_prop d ''hourly'' else JNull)"

text \<open>
  One row of the forecast card: the time as read (the source prints it through
  \<open>formatTimeShort\<close> and \<open>escapeHtml\<close>), the icon and label, and the three numbers as
  \<open>formatNumber\<close> shows them.
\<close>

record forecast_row =
  row_time :: jsval
  row_icon :: icon_label
  row_temp :: shown
  row_wind :: shown
  row_hum :: shown

text \<open>The body of the loop of \<open>renderWeather\<close> at index \<open>i\<close>.\<close>

definition forecast_row_at ::
  "(jsval \<Rightarrow> jsnum) \<Rightarrow> units \<Rightarrow> jsval \<Rightarrow> nat \<Rightarrow> forecast_row" where
  "forecast_row_at cv u h i =
     (let times = array_field h ''time'';
          tempsC = array_field h ''temperature_2m'';
          codes = array_field h ''weather_code'';
          winds = array_field h ''wind_speed_10m'';
          hums = array_field h ''relative_humidity_2m'';
          tempVal = (if u = F then JNum (toF (Number_js cv (at_index tempsC i)))
                     else at_index tempsC i);
          wv = (if u = F
                then JNum (js_mul (Number_js cv (at_index winds i)) (round_double 0.621371))
                else at_index winds i)
      in \<lparr>row_time = at_index times i,
          row_icon = codeToIcon cv (at_index codes i),
          row_temp = formatNumber cv tempVal 0,
          row_wind = formatNumber cv wv 0,
          row_hum = formatNumber cv (at_index hums i) 0\<rparr>)"

text \<open>
  The number of rows:
  \<^verbatim>\<open>const count = Math.min(8, times.length, tempsC.length, codes.length);\<close>
\<close>

definition forecast_count :: "jsval \<Rightarrow> nat" where
  "forecast_count h =
     min 8 (min (length (array_field h ''time''))
             (min (length (array_field h ''temperature_2m''))
                  (length (array_field h ''weather_code''))))"

text \<open>
  The rows that \<open>renderWeather(data, meta)\<close> pushes, for \<open>i\<close> from 0 below \<open>count\<close>,
  on a page that has the forecast card (without the card nothing is computed).
\<close>

definition forecastRows :: "(jsval \<Rightarrow> jsnum) \<Rightarrow> units \<Rightarrow> jsval \<Rightarrow> forecast_row list" where
  "forecastRows cv u d =
     map (forecast_row_at cv u (hourly_of d)) [0 ..< forecast_count (hourly_of d)]"

section \<open>The shopping cart\<close>

text \<open>A product of \<open>script.js\<close>, and a cart entry \<open>{ ...product, qty }\<close>.\<close>

record product =
  prod_id :: jsnum
  prod_name :: string
  price :: real
  image :: string

record cart_item = product +
  qty :: nat

definition products :: "product list" where
  "products =
     [\<lparr>prod_id = Num 1, prod_name = ''Honeycrisp Apples'', price = 4.99,
        image = ''https://images.unsplash.com/photo-1567306226416-28f0efdc88ce?auto=format&fit=crop&w=900&q=80''\<rparr>,
      \<lparr>prod_id = Num 2, prod_name = ''Ataulfo Mangoes'', price = 6.5,
        image = ''https://images.unsplash.com/photo-1591073113125-e46713c829ed?auto=format&fit=crop&w=900&q=80''\<rparr>,
      \<lparr>prod_id = Num 3, prod_name = ''Blueberry Pack'', price = 5.25,
        image = ''https://images.unsplash.com/photo-1498557850523-fd3d118b962e?auto=format&fit=crop&w=900&q=80''\<rparr>,
      \<lparr>prod_id = Num 4, prod_name = ''Valencia Oranges'', price = 3.75,
        image = ''https://images.unsplash.com/photo-1582979512210-99b6a53386f9?auto=format&fit=crop&w=900&q=80''\<rparr>,
      \<lparr>prod_id = Num 5, prod_name = ''Seedless Grapes'', price = 4.2,
        image = ''https://images.unsplash.com/photo-1537640538966-79f369143f8f?auto=format&fit=crop&w=900&q=80''\<rparr>,
      \<lparr>prod_id = Num 6, prod_name = ''Dragon Fruit'', price = 7.9,
        image = ''https://images.unsplash.com/photo-1527325678964-54921661f888?auto=format&fit=crop&w=900&q=80''\<rparr>]"

text \<open>Strict equality \<open>===\<close> of two numbers: \<open>NaN\<close> equals nothing, itself included.\<close>

definition strict_eq :: "jsnum \<Rightarrow> jsnum \<Rightarrow> bool" where
  "strict_eq a b = (a \<noteq> NaN \<and> b \<noteq> NaN \<and> a = b)"

text \<open>
  A click inside the product grid: on something that is no button, or on a button, whose
  \<open>dataset.id\<close> is a string or \<open>undefined\<close>.
\<close>

datatype click = NotButton | Button jsval

text \<open>\<open>existingItem.qty += 1\<close> on the first entry that \<open>cart.find\<close> finds.\<close>

fun inc_first :: "jsnum \<Rightarrow> cart_item list \<Rightarrow> cart_item list" where
  "inc_first i [] = []"
| "inc_first i (x # xs) =
     (if strict_eq (prod_id x) i then x\<lparr>qty := qty x + 1\<rparr> # xs else x # inc_first i xs)"

text \<open>The click handler of the product grid, on the cart array.\<close>

definition add_to_cart :: "(jsval \<Rightarrow> jsnum) \<Rightarrow> cart_item list \<Rightarrow> click \<Rightarrow> cart_item list" where
  "add_to_cart cv cart ev =
     (case ev of
        NotButton \<Rightarrow> cart
      | Button d \<Rightarrow>
          (let i = Number_js cv d in
           case find (\<lambda>p. strict_eq (prod_id p) i) products of
             None \<Rightarrow> cart
           | Some p \<Rightarrow>
               (case find (\<lambda>x. strict_eq (prod_id x) i) cart of
                  Some x \<Rightarrow> inc_first i cart
                | None \<Rightarrow>
                    cart @ [\<lparr>prod_id = prod_id p, prod_name = prod_name p,
                             price = price p, image = image p, qty = 1\<rparr>])))"

text \<open>The cart after a sequence of clicks, from the empty cart of page load.\<close>

definition cart_after :: "(jsval \<Rightarrow> jsnum) \<Rightarrow> click list \<Rightarrow> cart_item list" where
  "cart_after cv evs = foldl (add_to_cart cv) [] evs"

section \<open>Sample states and payloads\<close>

text \<open>
  \<open>STATE.weather\<close> as the script declares it, after \<open>initWeatherOverlay\<close> has set \<open>cityId\<close> to
  the first city of the registry: metric units, an empty cache, nothing loading.
\<close>

definition STATE_weather :: world where
  "STATE_weather =
     \<lparr>units = C, cityId = ''erbil'', cache = Map.empty, isLoading = False, lastError = None,
      requests = [], inflight = [], stored = None, view = Blank\<rparr>"

text \<open>
  An environment of a call: the cache check at time \<open>t\<close>, the response 200 ms later,
  a write to storage that goes through, and the given selection when the response
  arrives.
\<close>

definition reply :: "int \<Rightarrow> response \<Rightarrow> string \<Rightarrow> units \<Rightarrow> env" where
  "reply t r i u =
     \<lparr>now_check = t, response = r, now_store = t + 200, storage_ok = True,
      cityId_at_response = i, units_at_response = u\<rparr>"

text \<open>A small response body of the shape the forecast provider sends.\<close>

definition sample_payload :: jsval where
  "sample_payload =
     JObj [(''current'', JObj [(''temperature_2m'', JNum (Num 21))]),
           (''hourly'', JObj [(''time'', JArr [JStr ''2024-05-01T00:00''])])]"

text \<open>
  A response body whose five hourly arrays have the given lengths (time, temperature,
  weather code, wind speed, humidity).
\<close>

definition hourly_payload :: "nat \<Rightarrow> nat \<Rightarrow> nat \<Rightarrow> nat \<Rightarrow> nat \<Rightarrow> jsval" where
  "hourly_payload nt nc nk nw nh =
     JObj [(''hourly'',
       JObj [(''time'', JArr (replicate nt (JStr ''2024-05-01T00:00''))),
             (''temperature_2m'', JArr (replicate nc (JNum (Num 20)))),
             (''weather_code'', JArr (replicate nk (JNum (Num 3)))),
             (''wind_speed_10m'', JArr (replicate nw (JNum (Num 10)))),
             (''relative_humidity_2m'', JArr (replicate nh (JNum (Num 40))))])]"

text \<open>
  \<open>Number\<close> on the strings that the examples of the cart use as \<open>dataset.id\<close>; any other
  string is taken as one that is no numeric literal.
\<close>

definition digits_cv :: "jsval \<Rightarrow> jsnum" where
  "digits_cv v =
     (if v = JStr ''1'' then Num 1 else if v = JStr ''2'' then Num 2
      else if v = JStr ''9'' then Num 9 else NaN)"

section \<open>The invariant of the fetch flow\<close>

text \<open>
  At most one request is in flight, and while one is in flight \<open>isLoading\<close> is set.
\<close>

definition single_flight :: "world \<Rightarrow> bool" where
  "single_flight w = (length (inflight w) \<le> 1 \<and> (inflight w = [] \<or> isLoading w))"

section \<open>Properties of the arithmetic of doubles\<close>

lemma round_even_int [simp]: "round_even (of_int n) = n"
  by (simp add: round_even_def)

lemma round_even_ge_floor: "\<lfloor>x\<rfloor> \<le> round_even x"
  by (simp add: round_even_def Let_def)

lemma pow2_mono: "m \<le> n \<Longrightarrow> (2::real) ^ m \<le> 2 ^ n"
  by (rule power_increasing) auto

lemma pow2_split: "m \<le> n \<Longrightarrow> (2::real) ^ n = 2 ^ (n - m) * 2 ^ m"
  by (simp flip: power_add)

lemma binade_eq:
  assumes "k \<le> 2045" and "X < 2 ^ (k + 53)" and "k = 0 \<or> 2 ^ (k + 52) \<le> X"
  shows "binade X = k"
proof -
  have len: "length [0 ..< 2046] = 2046" by simp
  have nth: "\<And>i. i < 2046 \<Longrightarrow> [0 ..< 2046] ! i = i" by simp
  have k: "k < 2046" using assms(1) by simp
  have "find (\<lambda>k. X < 2 ^ (k + 53)) [0 ..< 2046] = Some k"
    unfolding find_Some_iff
  proof (rule exI [of _ k], intro conjI allI impI)
    show "k < length [0 ..< 2046]" using k len by simp
    show "X < 2 ^ ([0 ..< 2046] ! k + 53)" using assms(2) nth [OF k] by simp
    show "k = [0 ..< 2046] ! k" using nth [OF k] by simp
    fix j assume j: "j < k"
    with assms(3) have le: "(2::real) ^ (k + 52) \<le> X" by auto
    from j have "j + 53 \<le> k + 52" by simp
    then have "(2::real) ^ (j + 53) \<le> 2 ^ (k + 52)" by (rule pow2_mono)
    with le have "\<not> X < 2 ^ (j + 53)" by linarith
    moreover have "[0 ..< 2046] ! j = j" using j k by (intro nth) simp
    ultimately show "\<not> X < 2 ^ ([0 ..< 2046] ! j + 53)" by simp
  qed
  then show ?thesis by (simp add: binade_def)
qed

lemma binade_big:
  assumes "2 ^ 2098 \<le> X"
  shows "binade X = 2046"
proof -
  have "find (\<lambda>k. X < 2 ^ (k + 53)) [0 ..< 2046] = None"
    unfolding find_None_iff
  proof (intro notI, elim exE conjE)
    fix k assume k: "k \<in> set [0 ..< 2046]" and lt: "X < 2 ^ (k + 53)"
    from k have "k + 53 \<le> 2098" by simp
    then have "(2::real) ^ (k + 53) \<le> 2 ^ 2098" by (rule pow2_mono)
    with lt assms show False by linarith
  qed
  then show ?thesis by (simp add: binade_def)
qed

lemma round_double_compute:
  assumes "k \<le> 2045" and "\<bar>x\<bar> * 2 ^ 1074 < 2 ^ (k + 53)"
    and "k = 0 \<or> 2 ^ (k + 52) \<le> \<bar>x\<bar> * 2 ^ 1074"
    and "round_even (x * 2 ^ 1074 / 2 ^ k) = n"
    and "\<bar>of_int n * 2 ^ k / 2 ^ 1074 :: real\<bar> < 2 ^ 1024"
  shows "round_double x = Num (of_int n * 2 ^ k / 2 ^ 1074)"
proof -
  have b: "binade (\<bar>x\<bar> * 2 ^ 1074) = k"
    using assms(1,2,3) by (rule binade_eq)
  have "\<not> 2 ^ 1024 \<le> \<bar>of_int n * 2 ^ k / 2 ^ 1074 :: real\<bar>"
    using assms(5) by linarith
  then show ?thesis
    unfolding round_double_def Let_def b assms(4) by (simp only: if_False)
qed

lemma round_double_exact:
  assumes "x = of_int m * 2 ^ k / 2 ^ 1074" and "\<bar>m\<bar> < 2 ^ 53"
    and "k = 0 \<or> 2 ^ 52 \<le> \<bar>m\<bar>" and "k \<le> 2045"
  shows "round_double x = Num x"
proof -
  have p: "(0::real) < 2 ^ 1074" "(0::real) < 2 ^ k" by simp_all
  have X: "\<bar>x\<bar> * 2 ^ 1074 = of_int \<bar>m\<bar> * 2 ^ k"
    unfolding assms(1) using p by (simp add: abs_mult del: power_numeral)
  have lt: "\<bar>x\<bar> * 2 ^ 1074 < 2 ^ (k + 53)"
  proof -
    have "(of_int \<bar>m\<bar> :: real) < 2 ^ 53"
      using assms(2) by (metis of_int_less_numeral_power_cancel_iff)
    then have "(of_int \<bar>m\<bar> :: real) * 2 ^ k < 2 ^ 53 * 2 ^ k"
      using p(2) by (rule mult_strict_right_mono)
    then show ?thesis unfolding X power_add by (simp only: mult.commute)
  qed
  have ge: "k = 0 \<or> 2 ^ (k + 52) \<le> \<bar>x\<bar> * 2 ^ 1074"
  proof (cases "k = 0")
    case True then show ?thesis by simp
  next
    case False
    with assms(3) have "2 ^ 52 \<le> \<bar>m\<bar>" by simp
    then have "(2::real) ^ 52 \<le> of_int \<bar>m\<bar>"
      by (metis numeral_power_le_of_int_cancel_iff)
    then have "(2::real) ^ 52 * 2 ^ k \<le> of_int \<bar>m\<bar> * 2 ^ k"
      using p(2) by (intro mult_right_mono) simp_all
    then have "(2::real) ^ (k + 52) \<le> \<bar>x\<bar> * 2 ^ 1074"
      unfolding X power_add by (simp only: mult.commute)
    then show ?thesis by blast
  qed
  have "x * 2 ^ 1074 / 2 ^ k = of_int m"
    unfolding assms(1) using p by (simp del: power_numeral)
  then have r: "round_even (x * 2 ^ 1074 / 2 ^ k) = m"
    by (simp only: round_even_int)
  have "(2::real) ^ (k + 53) \<le> 2 ^ 2098"
    using assms(4) by (intro pow2_mono) simp
  with lt have "\<bar>x\<bar> * 2 ^ 1074 < 2 ^ 2098" by linarith
  also have "(2::real) ^ 2098 = 2 ^ 1024 * 2 ^ 1074"
    by (simp only: flip: power_add) simp
  finally have small: "\<bar>x\<bar> < 2 ^ 1024"
    using p(1) by (simp only: mult_less_cancel_right_pos)
  have "round_double x = Num (of_int m * 2 ^ k / 2 ^ 1074)"
    using small by (intro round_double_compute [OF assms(4) lt ge r]) (simp only: assms(1))
  then show ?thesis by (simp only: assms(1))
qed

lemma round_double_0: "round_double 0 = Num 0"
  using round_double_exact [of 0 0 0] by simp

lemma round_double_int:
  assumes "\<bar>n\<bar> < 2 ^ 53"
  shows "round_double (of_int n) = Num (of_int n)"
proof (cases "n = 0")
  case True then show ?thesis by (simp add: round_double_0)
next
  case False
  then have "1 \<le> nat \<bar>n\<bar>" by simp
  from ex_power_ivl1 [OF _ this, of 2] obtain j where
    j: "2 ^ j \<le> nat \<bar>n\<bar>" "nat \<bar>n\<bar> < 2 ^ (j + 1)" by auto
  have jn: "(2::int) ^ j \<le> \<bar>n\<bar>" "\<bar>n\<bar> < 2 ^ (j + 1)"
    using j by (simp_all add: le_nat_iff nat_less_iff del: power_numeral)
  have "(2::int) ^ j < 2 ^ 53" using jn(1) assms by linarith
  then have "j < 53" by (simp del: power_numeral)
  then have j52: "j \<le> 52" by simp
  let ?m = "n * 2 ^ (52 - j)"
  have m1: "\<bar>?m\<bar> < 2 ^ 53"
  proof -
    have "\<bar>n\<bar> * 2 ^ (52 - j) < 2 ^ (j + 1) * 2 ^ (52 - j)"
      using jn(2) by (intro mult_strict_right_mono) simp_all
    also have "(2::int) ^ (j + 1) * 2 ^ (52 - j) = 2 ^ (j + 1 + (52 - j))"
      by (simp only: power_add)
    also have "j + 1 + (52 - j) = 53" using j52 by simp
    finally show ?thesis by (simp add: abs_mult del: power_numeral)
  qed
  have m2: "2 ^ 52 \<le> \<bar>?m\<bar>"
  proof -
    have "(2::int) ^ j * 2 ^ (52 - j) \<le> \<bar>n\<bar> * 2 ^ (52 - j)"
      using jn(1) by (intro mult_right_mono) simp_all
    moreover have "(2::int) ^ j * 2 ^ (52 - j) = 2 ^ (j + (52 - j))"
      by (simp only: power_add)
    moreover have "j + (52 - j) = 52" using j52 by simp
    ultimately show ?thesis by (simp add: abs_mult del: power_numeral)
  qed
  have "(2::real) ^ (52 - j) * 2 ^ (j + 1022) = 2 ^ (52 - j + (j + 1022))"
    by (simp only: power_add)
  moreover have "52 - j + (j + 1022) = 1074" using j52 by simp
  ultimately have "(2::real) ^ (52 - j) * 2 ^ (j + 1022) = 2 ^ 1074" by simp
  then have "(of_int n :: real) * (2 ^ (52 - j) * 2 ^ (j + 1022)) / 2 ^ 1074 = of_int n"
    by (simp del: power_numeral)
  then have x: "(of_int n :: real) = of_int ?m * 2 ^ (j + 1022) / 2 ^ 1074"
    by (simp add: mult.assoc del: power_numeral)
  have k: "j + 1022 \<le> 2045" using j52 by simp
  show ?thesis
    using round_double_exact [OF x m1 _ k] m2 by blast
qed

lemma round_double_overflow:
  assumes "2 ^ 1024 \<le> x"
  shows "round_double x = PosInf"
proof -
  have p: "(0::real) < 2 ^ 1074" "(0::real) < 2 ^ 972" "(0::real) < 2 ^ 1024" by simp_all
  have pos: "0 < x" using assms p(3) by linarith
  have s1: "(2::real) ^ 2098 = 2 ^ 1024 * 2 ^ 1074"
    by (simp only: flip: power_add) simp
  have s2: "(2::real) ^ 1024 = 2 ^ 52 * 2 ^ 972"
    by (simp only: flip: power_add) simp
  have s3: "(2::real) ^ 2046 = 2 ^ 972 * 2 ^ 1074"
    by (simp only: flip: power_add) simp
  have "(2::real) ^ 1024 * 2 ^ 1074 \<le> x * 2 ^ 1074"
    using assms p(1) by (simp only: mult_le_cancel_right_pos)
  then have "(2::real) ^ 2098 \<le> \<bar>x\<bar> * 2 ^ 1074"
    using pos by (simp only: s1 abs_of_pos)
  then have b: "binade (\<bar>x\<bar> * 2 ^ 1074) = 2046" by (rule binade_big)
  have nz: "(2::real) ^ 1074 \<noteq> 0" by simp
  have q: "x * 2 ^ 1074 / 2 ^ 2046 = x / 2 ^ 972"
    by (simp only: s3 mult_divide_mult_cancel_right [OF nz])
  have "(2::real) ^ 52 * 2 ^ 972 \<le> x" using assms by (simp only: s2)
  then have "(2::real) ^ 52 \<le> x / 2 ^ 972"
    using p(2) by (simp only: pos_le_divide_eq)
  then have "2 ^ 52 \<le> \<lfloor>x / 2 ^ 972\<rfloor>"
    by (simp add: le_floor_iff del: power_numeral)
  with round_even_ge_floor [of "x / 2 ^ 972"] have n: "2 ^ 52 \<le> round_even (x / 2 ^ 972)"
    by linarith
  then have "(2::real) ^ 52 \<le> of_int (round_even (x / 2 ^ 972))"
    by (metis numeral_power_le_of_int_cancel_iff)
  then have "(2::real) ^ 52 * 2 ^ 972 \<le> of_int (round_even (x / 2 ^ 972)) * 2 ^ 972"
    using p(2) by (intro mult_right_mono) simp_all
  then have big: "(2::real) ^ 1024 \<le> of_int (round_even (x / 2 ^ 972)) * 2 ^ 972"
    by (simp only: s2)
  have y: "of_int (round_even (x / 2 ^ 972)) * 2 ^ 2046 / 2 ^ 1074
      = (of_int (round_even (x / 2 ^ 972)) * 2 ^ 972 :: real)"
    by (simp only: s3 mult.assoc [symmetric] nonzero_mult_div_cancel_right [OF nz])
  from big have "(2::real) ^ 1024 \<le> \<bar>of_int (round_even (x / 2 ^ 972)) * 2 ^ 972\<bar>"
    by linarith
  then show ?thesis
    unfolding round_double_def Let_def b q y using pos by (simp only: if_True)
qed

section \<open>Properties of the presentation helpers\<close>

lemma toF_no_rounding:
  assumes "round_double (c * 9) = Num (c * 9)"
    and "round_double (c * 9 / 5) = Num (c * 9 / 5)"
    and "round_double (c * 9 / 5 + 32) = Num (c * 9 / 5 + 32)"
  shows "toF (Num c) = Num (c * 9 / 5 + 32)"
  by (simp add: toF_def assms)

lemma toF_multiple_of_5:
  assumes "\<bar>k\<bar> \<le> 10 ^ 14"
  shows "toF (Num (of_int (5 * k))) = Num (of_int (9 * k + 32))"
proof -
  have b: "\<bar>k\<bar> \<le> 100000000000000" using assms by simp
  have a1: "\<bar>45 * k\<bar> < 2 ^ 53" using b by simp
  have a2: "\<bar>9 * k\<bar> < 2 ^ 53" using b by simp
  have a3: "\<bar>9 * k + 32\<bar> < 2 ^ 53" using b by simp
  have e1: "(of_int (5 * k) :: real) * 9 = of_int (45 * k)" by simp
  have e2: "(of_int (45 * k) :: real) / 5 = of_int (9 * k)" by simp
  have e3: "(of_int (9 * k) :: real) + 32 = of_int (9 * k + 32)" by simp
  have m1: "js_mul (Num (of_int (5 * k))) (Num 9) = Num (of_int (45 * k))"
    by (simp only: js_mul.simps e1 round_double_int [OF a1])
  have "js_div (Num (of_int (45 * k))) (Num 5) = round_double (of_int (45 * k) / 5)"
    by simp
  then have m2: "js_div (Num (of_int (45 * k))) (Num 5) = Num (of_int (9 * k))"
    by (simp only: e2 round_double_int [OF a2])
  have m3: "js_add (Num (of_int (9 * k))) (Num 32) = Num (of_int (9 * k + 32))"
    by (simp only: js_add.simps e3 round_double_int [OF a3])
  show ?thesis
    by (simp only: toF_def m1 m2 m3)
qed

lemma toF_overflow:
  assumes "2 ^ 1024 \<le> c * 9"
  shows "toF (Num c) = PosInf"
  by (simp add: toF_def round_double_overflow [OF assms] del: power_numeral)

lemma toF_0: "toF (Num 0) = Num 32"
  using toF_multiple_of_5 [of 0] by simp

lemma toF_100: "toF (Num 100) = Num 212"
  using toF_multiple_of_5 [of 20] by simp

lemma toF_20: "toF (Num 20) = Num 68"
  using toF_multiple_of_5 [of 4] by simp

lemma rd_9_5: "round_double (9 / 5) = Num (8106479329266893 / 2 ^ 52)"
proof -
  have r: "round_even (9 / 5 * 2 ^ 1074 / 2 ^ 1022) = 8106479329266893"
    by (simp add: round_even_def Let_def)
  have "round_double (9 / 5) = Num (of_int 8106479329266893 * 2 ^ 1022 / 2 ^ 1074)"
    by (rule round_double_compute [OF _ _ _ r]) simp_all
  then show ?thesis by simp
qed

lemma rd_sum: "round_double (8106479329266893 / 2 ^ 52 + 32) = Num (4756927106410086 / 2 ^ 47)"
proof -
  have r: "round_even ((8106479329266893 / 2 ^ 52 + 32) * 2 ^ 1074 / 2 ^ 1027) = 4756927106410086"
    by (simp add: round_even_def Let_def)
  have "round_double (8106479329266893 / 2 ^ 52 + 32)
      = Num (of_int 4756927106410086 * 2 ^ 1027 / 2 ^ 1074)"
    by (rule round_double_compute [OF _ _ _ r]) simp_all
  then show ?thesis by simp
qed

lemma toF_1: "toF (Num 1) = Num (4756927106410086 / 2 ^ 47)"
proof -
  have "round_double (1 * 9) = Num 9"
    using round_double_int [of 9] by simp
  then show ?thesis
    by (simp add: toF_def rd_9_5 rd_sum del: power_numeral)
qed

text \<open>
  C9, as the code has it. The Celsius-to-Fahrenheit helper computes \<open>(c * 9) / 5 + 32\<close>
  in the arithmetic of doubles, each of the three operations rounding its result. Its
  value is the number \<open>c * 9 / 5 + 32\<close> whenever none of the three results needs
  rounding; that is so for every multiple of 5 up to \<open>5 * 10 ^ 14\<close> in magnitude, so
  \<open>toF(0)\<close> is 32 and \<open>toF(100)\<close> is 212. When \<open>c * 9\<close> reaches \<open>2 ^ 1024\<close> the value
  is \<open>Infinity\<close>. On \<open>NaN\<close> it is \<open>NaN\<close>, and on each infinity that infinity.
\<close>

theorem toF_double_arithmetic:
  "(round_double (c * 9) = Num (c * 9) \<and> round_double (c * 9 / 5) = Num (c * 9 / 5)
      \<and> round_double (c * 9 / 5 + 32) = Num (c * 9 / 5 + 32) \<longrightarrow>
      toF (Num c) = Num (c * 9 / 5 + 32))
   \<and> (\<bar>k\<bar> \<le> 10 ^ 14 \<longrightarrow> toF (Num (of_int (5 * k))) = Num (of_int (9 * k + 32)))
   \<and> toF (Num 0) = Num 32 \<and> toF (Num 100) = Num 212
   \<and> (2 ^ 1024 \<le> d * 9 \<longrightarrow> toF (Num d) = PosInf)
   \<and> toF NaN = NaN \<and> toF PosInf = PosInf \<and> toF NegInf = NegInf"
proof -
  have "toF NaN = NaN \<and> toF PosInf = PosInf \<and> toF NegInf = NegInf"
    by (simp add: toF_def)
  with toF_no_rounding [of c] toF_multiple_of_5 [of k] toF_0 toF_100 toF_overflow [of d]
  show ?thesis by blast
qed

theorem toF_double_arithmetic_witness:
  "round_double (100 * 9) = Num (100 * 9) \<and> round_double (100 * 9 / 5) = Num (100 * 9 / 5)
   \<and> round_double (100 * 9 / 5 + 32) = Num (100 * 9 / 5 + 32)
   \<and> toF (Num 100) = Num (100 * 9 / 5 + 32)
   \<and> \<bar>-8 :: int\<bar> \<le> 10 ^ 14 \<and> toF (Num (of_int (5 * (-8)))) = Num (of_int (9 * (-8) + 32))
   \<and> (2::real) ^ 1024 \<le> 2 ^ 1023 * 9 \<and> toF (Num (2 ^ 1023)) = PosInf"
proof -
  have r: "round_double (100 * 9) = Num (100 * 9)" "round_double (100 * 9 / 5) = Num (100 * 9 / 5)"
    "round_double (100 * 9 / 5 + 32) = Num (100 * 9 / 5 + 32)"
    using round_double_int [of 900] round_double_int [of 180] round_double_int [of 212]
    by simp_all
  have k: "\<bar>-8 :: int\<bar> \<le> 10 ^ 14" by simp
  have d: "(2::real) ^ 1024 \<le> 2 ^ 1023 * 9" by simp
  from toF_double_arithmetic [of 100 "-8" "2 ^ 1023"] r k d show ?thesis
    by blast
qed

text \<open>
  C9 as stated fails: \<open>toF(c)\<close> is not the number \<open>c * 9 / 5 + 32\<close> for every \<open>c\<close>. At
  \<open>c = 2 ^ 1023\<close>, a finite double, the product overflows and the value is \<open>Infinity\<close>;
  at \<open>c = 1\<close> the quotient \<open>9 / 5\<close> and the sum are rounded, and the value is the double
  \<open>4756927106410086 / 2 ^ 47\<close>, which only prints as 33.8.
\<close>

theorem toF_formula_counterexample:
  "toF (Num (2 ^ 1023)) = PosInf
   \<and> toF (Num 1) = Num (4756927106410086 / 2 ^ 47)
   \<and> (4756927106410086 / 2 ^ 47 :: real) \<noteq> 1 * 9 / 5 + 32"
proof -
  have "(2::real) ^ 1024 \<le> 2 ^ 1023 * 9" by simp
  then have "toF (Num (2 ^ 1023)) = PosInf" by (rule toF_overflow)
  moreover have "(4756927106410086 / 2 ^ 47 :: real) \<noteq> 1 * 9 / 5 + 32" by simp
  ultimately show ?thesis using toF_1 by simp
qed

lemma codeToIcon_num:
  "codeToIcon cv (JNum (Num r)) =
     (if r = 0 then \<lparr>icon = ''ri-sun-line'', label = ''Clear sky''\<rparr>
      else if r = 1 then \<lparr>icon = ''ri-sun-cloudy-line'', label = ''Mainly clear''\<rparr>
      else if r = 2 then \<lparr>icon = ''ri-cloudy-2-line'', label = ''Partly cloudy''\<rparr>
      else if r = 3 then \<lparr>icon = ''ri-cloudy-line'', label = ''Overcast''\<rparr>
      else if r = 45 \<or> r = 48 then \<lparr>icon = ''ri-mist-line'', label = ''Fog''\<rparr>
      else if r = 51 \<or> r = 53 \<or> r = 55 then \<lparr>icon = ''ri-drizzle-line'', label = ''Drizzle''\<rparr>
      else if r = 56 \<or> r = 57 then \<lparr>icon = ''ri-snowy-line'', label = ''Freezing drizzle''\<rparr>
      else if r = 61 \<or> r = 63 \<or> r = 65 then \<lparr>icon = ''ri-rainy-line'', label = ''Rain''\<rparr>
      else if r = 66 \<or> r = 67 then \<lparr>icon = ''ri-snowy-line'', label = ''Freezing rain''\<rparr>
      else if r = 71 \<or> r = 73 \<or> r = 75 then \<lparr>icon = ''ri-snowy-line'', label = ''Snow''\<rparr>
      else if r = 77 then \<lparr>icon = ''ri-snowy-line'', label = ''Snow grains''\<rparr>
      else if r = 80 \<or> r = 81 \<or> r = 82 then \<lparr>icon = ''ri-showers-line'', label = ''Showers''\<rparr>
      else if r = 95 then \<lparr>icon = ''ri-thunderstorms-line'', label = ''Thunderstorm''\<rparr>
      else if r = 96 \<or> r = 99
        then \<lparr>icon = ''ri-thunderstorms-line'', label = ''Thunderstorm + hail''\<rparr>
      else \<lparr>icon = ''ri-cloud-windy-line'', label = ''Variable''\<rparr>)"
  by (simp add: codeToIcon_def)

lemma codeToIcon_label_known: "label (codeToIcon cv v) \<in> set all_labels"
  unfolding codeToIcon_def all_labels_def Let_def by simp

lemma codeToIcon_unmapped:
  "r \<notin> set mapped_codes \<Longrightarrow>
     codeToIcon cv (JNum (Num r)) = \<lparr>icon = ''ri-cloud-windy-line'', label = ''Variable''\<rparr>"
  by (simp add: codeToIcon_num mapped_codes_def)

lemma codeToIcon_mapped:
  "r \<in> set mapped_codes \<Longrightarrow> label (codeToIcon cv (JNum (Num r))) \<noteq> ''Variable''"
  unfolding codeToIcon_num mapped_codes_def by auto

text \<open>
  C8. The weather-code mapping is total: on every value, whatever its type, it returns
  one of its sixteen labels. Code 0 gives the clear-sky entry, code 95 the thunderstorm
  entry, and every finite number \<open>r\<close> that the table does not name (12345, say) gives
  the fallback entry \<open>Variable\<close>, which no code of the table gives. (A value whose
  \<open>Number\<close> is not finite is no code: it takes the guard before the table.)
\<close>

theorem codeToIcon_total:
  "label (codeToIcon cv v) \<in> set all_labels
   \<and> codeToIcon cv (JNum (Num 0)) = \<lparr>icon = ''ri-sun-line'', label = ''Clear sky''\<rparr>
   \<and> codeToIcon cv (JNum (Num 95)) =
       \<lparr>icon = ''ri-thunderstorms-line'', label = ''Thunderstorm''\<rparr>
   \<and> (r \<notin> set mapped_codes \<longrightarrow>
        codeToIcon cv (JNum (Num r)) = \<lparr>icon = ''ri-cloud-windy-line'', label = ''Variable''\<rparr>)
   \<and> (r \<in> set mapped_codes \<longrightarrow> label (codeToIcon cv (JNum (Num r))) \<noteq> ''Variable'')"
  using codeToIcon_label_known codeToIcon_unmapped codeToIcon_mapped
  by (simp add: codeToIcon_num)

theorem codeToIcon_total_witness:
  "(12345::real) \<notin> set mapped_codes \<and> (95::real) \<in> set mapped_codes
   \<and> label (codeToIcon (\<lambda>v. NaN) (JNum (Num 12345))) = ''Variable''
   \<and> label (codeToIcon (\<lambda>v. NaN) (JNum (Num 95))) \<noteq> ''Variable''"
  using codeToIcon_total [of "\<lambda>v. NaN" JNull 12345] codeToIcon_total [of "\<lambda>v. NaN" JNull 95]
  by (simp add: mapped_codes_def)

section \<open>Properties of the fetch operation\<close>

lemma getCityIn_registered:
  assumes "cities \<noteq> []"
  shows "\<exists>c. getCityIn cities i = Some c \<and> c \<in> set cities
           \<and> (i \<in> city_id ` set cities \<longrightarrow> city_id c = i)
           \<and> (i \<notin> city_id ` set cities \<longrightarrow> c = hd cities)"
proof (cases "find (\<lambda>c. city_id c = i) cities")
  case None
  then have "i \<notin> city_id ` set cities"
    by (auto simp: find_None_iff)
  with None assms show ?thesis
    by (cases cities) (auto simp: getCityIn_def)
next
  case (Some c)
  then have "c \<in> set cities" "city_id c = i"
    by (auto simp: find_Some_iff)
  with Some show ?thesis
    by (auto simp: getCityIn_def)
qed

lemma getCity_registered:
  "\<exists>c. getCity i = Some c \<and> c \<in> set APP_cities
         \<and> (i \<in> city_id ` set APP_cities \<longrightarrow> city_id c = i)
         \<and> (i \<notin> city_id ` set APP_cities \<longrightarrow> c = hd APP_cities)"
  unfolding getCity_def by (rule getCityIn_registered) (simp add: APP_cities_def)

lemma at_response_fields [simp]:
  "cache (at_response w e) = cache w"
  "stored (at_response w e) = stored w"
  "requests (at_response w e) = requests w"
  "inflight (at_response w e) = inflight w"
  "isLoading (at_response w e) = isLoading w"
  "lastError (at_response w e) = lastError w"
  "cityId (at_response w e) = cityId_at_response e"
  "units (at_response w e) = units_at_response e"
  by (simp_all add: at_response_def)

lemma buildKey_at_response:
  "buildKey (at_response w e) = cityId_at_response e @ ''_'' @ units_str (units_at_response e)"
  by (simp add: buildKey_def)

lemma at_response_unchanged:
  "cityId_at_response e = cityId w \<Longrightarrow> units_at_response e = units w \<Longrightarrow>
     buildKey (at_response w e) = buildKey w"
  by (simp add: buildKey_def)

lemma fetchWeather_begin_cases:
  "\<exists>c. getCity (cityId w) = Some c \<and>
     fetchWeather_begin w force now =
       (if \<not> force \<and> truthy (fromCache w now)
        then (Returned (Inr (fromCache w now, Cache)), w)
        else (Awaiting, w\<lparr>requests := requests w @ [(lat c, lon c)],
                          inflight := inflight w @ [(lat c, lon c)]\<rparr>))"
proof -
  obtain c where "getCity (cityId w) = Some c"
    using getCity_registered [of "cityId w"] by blast
  then show ?thesis
    by (simp add: fetchWeather_begin_def)
qed

lemma fetchWeather_begin_no_throw:
  "fst (fetchWeather_begin w force now) \<noteq> Returned (Inl msg)"
  using fetchWeather_begin_cases [of w force now] by (auto split: if_splits)

lemma fetchWeather_hit:
  "\<not> force \<Longrightarrow> truthy (fromCache w (now_check e)) \<Longrightarrow>
     fetchWeather w force e = (Inr (fromCache w (now_check e), Cache), w)"
  using fetchWeather_begin_cases [of w force "now_check e"]
  by (auto simp: fetchWeather_def)

lemma fetchWeather_miss:
  "force \<or> \<not> truthy (fromCache w (now_check e)) \<Longrightarrow>
     \<exists>c. getCity (cityId w) = Some c \<and>
       fetchWeather w force e =
         fetchWeather_end
           (at_response
              (w\<lparr>requests := requests w @ [(lat c, lon c)],
                 inflight := inflight w @ [(lat c, lon c)]\<rparr>) e)
           (response e) (now_store e) (storage_ok e)"
  using fetchWeather_begin_cases [of w force "now_check e"]
  by (auto simp: fetchWeather_def)

lemma fromCache_flags [simp]:
  "fromCache (w\<lparr>isLoading := a, lastError := b, view := c\<rparr>) now = fromCache w now"
  by (simp add: fromCache_def buildKey_def)

text \<open>
  C7. For every id string \<open>i\<close>, in the registry or not, \<open>getCity\<close> returns a city of
  the registry: the one with that id when there is one, the first city of the registry
  otherwise. The first part of \<open>fetchWeather\<close> never throws, so no error comes from an
  unknown id, and with a successful response the call succeeds whatever the id is.
\<close>

theorem getCity_never_fails:
  "(\<exists>c. getCity i = Some c \<and> c \<in> set APP_cities
         \<and> (i \<in> city_id ` set APP_cities \<longrightarrow> city_id c = i)
         \<and> (i \<notin> city_id ` set APP_cities \<longrightarrow> c = hd APP_cities))
   \<and> fst (fetchWeather_begin (w\<lparr>cityId := i\<rparr>) force now) \<noteq> Returned (Inl msg)
   \<and> (response e = Http status (Body json) \<and> res_ok status \<longrightarrow>
        (\<exists>r. fst (fetchWeather (w\<lparr>cityId := i\<rparr>) force e) = Inr r))"
proof (intro conjI impI)
  show "\<exists>c. getCity i = Some c \<and> c \<in> set APP_cities
         \<and> (i \<in> city_id ` set APP_cities \<longrightarrow> city_id c = i)
         \<and> (i \<notin> city_id ` set APP_cities \<longrightarrow> c = hd APP_cities)"
    by (rule getCity_registered)
  show "fst (fetchWeather_begin (w\<lparr>cityId := i\<rparr>) force now) \<noteq> Returned (Inl msg)"
    by (rule fetchWeather_begin_no_throw)
  assume ok: "response e = Http status (Body json) \<and> res_ok status"
  let ?w = "w\<lparr>cityId := i\<rparr>"
  show "\<exists>r. fst (fetchWeather ?w force e) = Inr r"
  proof (cases "\<not> force \<and> truthy (fromCache ?w (now_check e))")
    case True
    then show ?thesis using fetchWeather_hit [of force ?w e] by simp
  next
    case False
    then have "force \<or> \<not> truthy (fromCache ?w (now_check e))" by blast
    from fetchWeather_miss [OF this] ok show ?thesis
      by (auto simp: fetchWeather_end_def Let_def)
  qed
qed

theorem getCity_never_fails_witness:
  "getCity ''atlantis'' = Some (hd APP_cities) \<and> city_id (hd APP_cities) = ''erbil''
   \<and> ''atlantis'' \<notin> city_id ` set APP_cities
   \<and> ''duhok'' \<in> city_id ` set APP_cities
   \<and> getCity ''duhok'' = Some (APP_cities ! 2)
   \<and> fst (fetchWeather (STATE_weather\<lparr>cityId := ''atlantis''\<rparr>) False
        \<lparr>now_check = 1000, response = Http 200 (Body sample_payload), now_store = 1200,
         storage_ok = True, cityId_at_response = ''atlantis'', units_at_response = C\<rparr>)
       = Inr (sample_payload, Live)"
  using getCity_never_fails [of "''atlantis''" STATE_weather False 1000 "''x''"
      "\<lparr>now_check = 1000, response = Http 200 (Body sample_payload), now_store = 1200,
         storage_ok = True, cityId_at_response = ''atlantis'', units_at_response = C\<rparr>"
      200 sample_payload]
    getCity_never_fails [of "''duhok''" STATE_weather False 1000 "''x''"
      "\<lparr>now_check = 1000, response = Http 200 (Body sample_payload), now_store = 1200,
         storage_ok = True, cityId_at_response = ''atlantis'', units_at_response = C\<rparr>"
      200 sample_payload]
  by (simp add: getCity_def getCityIn_def APP_cities_def fetchWeather_def
      fetchWeather_begin_def fetchWeather_end_def fromCache_def buildKey_def STATE_weather_def
      res_ok_def cacheSet_def persistWeatherCache_def at_response_def Let_def)

lemma fetchWeather_live:
  assumes "response e = Http status (Body json)" and "res_ok status"
    and "force \<or> \<not> truthy (fromCache w (now_check e))"
  shows "fst (fetchWeather w force e) = Inr (json, Live)
    \<and> cache (snd (fetchWeather w force e)) =
        (cache w)(buildKey (at_response w e) \<mapsto> \<lparr>ts = now_store e, data = json\<rparr>)
    \<and> stored (snd (fetchWeather w force e)) =
        (if storage_ok e
         then Some ((cache w)(buildKey (at_response w e) \<mapsto> \<lparr>ts = now_store e, data = json\<rparr>))
         else stored w)"
  using fetchWeather_miss [OF assms(3)] assms(1,2)
  by (auto simp: fetchWeather_end_def cacheSet_def persistWeatherCache_def buildKey_def Let_def)

text \<open>
  C6. When a call of \<open>fetchWeather\<close> goes to the network and the response is a success
  with a JSON body, the call returns that body with source \<open>live\<close>, the cache mapping
  in memory holds the new entry, and the mapping with the new entry is what is
  persisted: when the write to storage fails, the stored copy stays what it was, and the
  result and the entry in memory are the same as when it succeeds. The entry is under
  the key that \<open>buildKey()\<close> gives when the response arrives, which is the key of the
  call when the selection has not changed in between.
\<close>

theorem fetchWeather_live_best_effort:
  assumes "response e = Http status (Body json)" and "res_ok status"
    and "force \<or> \<not> truthy (fromCache w (now_check e))"
  shows "fst (fetchWeather w force e) = Inr (json, Live)
    \<and> cache (snd (fetchWeather w force e)) =
        (cache w)(buildKey (at_response w e) \<mapsto> \<lparr>ts = now_store e, data = json\<rparr>)
    \<and> stored (snd (fetchWeather w force e)) =
        (if storage_ok e
         then Some ((cache w)(buildKey (at_response w e) \<mapsto> \<lparr>ts = now_store e, data = json\<rparr>))
         else stored w)
    \<and> (cityId_at_response e = cityId w \<and> units_at_response e = units w \<longrightarrow>
         cache (snd (fetchWeather w force e)) =
           (cache w)(buildKey w \<mapsto> \<lparr>ts = now_store e, data = json\<rparr>)
         \<and> stored (snd (fetchWeather w force e)) =
           (if storage_ok e
            then Some ((cache w)(buildKey w \<mapsto> \<lparr>ts = now_store e, data = json\<rparr>))
            else stored w))"
  using fetchWeather_live [OF assms] at_response_unchanged [of e w] by auto

theorem fetchWeather_live_best_effort_witness:
  "fst (fetchWeather STATE_weather False
        \<lparr>now_check = 1000, response = Http 200 (Body sample_payload), now_store = 1200,
         storage_ok = False, cityId_at_response = ''erbil'', units_at_response = C\<rparr>)
       = Inr (sample_payload, Live)
   \<and> cache (snd (fetchWeather STATE_weather False
        \<lparr>now_check = 1000, response = Http 200 (Body sample_payload), now_store = 1200,
         storage_ok = False, cityId_at_response = ''erbil'', units_at_response = C\<rparr>))
        ''erbil_c'' = Some \<lparr>ts = 1200, data = sample_payload\<rparr>
   \<and> stored (snd (fetchWeather STATE_weather False
        \<lparr>now_check = 1000, response = Http 200 (Body sample_payload), now_store = 1200,
         storage_ok = False, cityId_at_response = ''erbil'', units_at_response = C\<rparr>)) = None"
  using fetchWeather_live_best_effort [of
      "\<lparr>now_check = 1000, response = Http 200 (Body sample_payload), now_store = 1200,
         storage_ok = False, cityId_at_response = ''erbil'', units_at_response = C\<rparr>"
      200 sample_payload False STATE_weather]
  by (simp add: res_ok_def fromCache_def buildKey_def STATE_weather_def)

lemma fetchWeather_end_failure:
  assumes "r = Rejected msg \<or>
      (r = Http status b \<and> \<not> res_ok status \<and>
       msg = ''Weather request failed ('' @ showNat status @ '')'')"
  shows "fetchWeather_end w r now ok = (Inl msg, w\<lparr>inflight := tl (inflight w)\<rparr>)"
  using assms by (auto simp: fetchWeather_end_def Let_def)

text \<open>
  C4. When a call of \<open>fetchWeather\<close> goes to the network and the request fails, by a
  transport error (\<open>fetch\<close> rejects with a message) or by a status outside 200 to 299,
  the call throws an error whose message is the transport's, or
  \<open>Weather request failed (status)\<close>; the cache mapping and its stored copy are what they
  were. The flow around it records that message in \<open>lastError\<close>, shows the failure,
  resets \<open>isLoading\<close>, and leaves the cache as it was too.
\<close>

theorem fetchWeather_failure_keeps_cache:
  assumes "force \<or> \<not> truthy (fromCache w (now_check e))"
    and "response e = Rejected msg \<or>
      (response e = Http status b \<and> \<not> res_ok status \<and>
       msg = ''Weather request failed ('' @ showNat status @ '')'')"
  shows "fst (fetchWeather w force e) = Inl msg
    \<and> cache (snd (fetchWeather w force e)) = cache w
    \<and> stored (snd (fetchWeather w force e)) = stored w
    \<and> (\<not> isLoading w \<longrightarrow>
         lastError (renderWeatherFromCacheOrFetch w force e) = Some msg
         \<and> view (renderWeatherFromCacheOrFetch w force e) = Failed msg
         \<and> \<not> isLoading (renderWeatherFromCacheOrFetch w force e)
         \<and> cache (renderWeatherFromCacheOrFetch w force e) = cache w
         \<and> stored (renderWeatherFromCacheOrFetch w force e) = stored w)"
proof -
  have direct: "\<And>w'. force \<or> \<not> truthy (fromCache w' (now_check e)) \<Longrightarrow>
      fst (fetchWeather w' force e) = Inl msg
      \<and> cache (snd (fetchWeather w' force e)) = cache w'
      \<and> stored (snd (fetchWeather w' force e)) = stored w'"
  proof -
    fix w' assume miss: "force \<or> \<not> truthy (fromCache w' (now_check e))"
    from fetchWeather_miss [OF miss] obtain c :: city where
      "fetchWeather w' force e =
         fetchWeather_end
           (at_response
              (w'\<lparr>requests := requests w' @ [(lat c, lon c)],
                  inflight := inflight w' @ [(lat c, lon c)]\<rparr>) e)
           (response e) (now_store e) (storage_ok e)"
      by auto
    then show "fst (fetchWeather w' force e) = Inl msg
      \<and> cache (snd (fetchWeather w' force e)) = cache w'
      \<and> stored (snd (fetchWeather w' force e)) = stored w'"
      by (simp add: fetchWeather_end_failure [OF assms(2)])
  qed
  let ?w1 = "w\<lparr>isLoading := True, lastError := None, view := Skeleton\<rparr>"
  have "force \<or> \<not> truthy (fromCache ?w1 (now_check e))"
    using assms(1) by simp
  from direct [OF this] direct [OF assms(1)] show ?thesis
    by (auto simp: renderWeatherFromCacheOrFetch_def finish_flow_def split: prod.splits)
qed

theorem fetchWeather_failure_keeps_cache_witness:
  "fst (fetchWeather
        (STATE_weather\<lparr>cache := [''erbil_c'' \<mapsto> \<lparr>ts = 1000, data = sample_payload\<rparr>]\<rparr>) True
        \<lparr>now_check = 5000, response = Http 503 (Body JNull), now_store = 5200,
         storage_ok = True, cityId_at_response = ''erbil'', units_at_response = C\<rparr>)
       = Inl ''Weather request failed (503)''
   \<and> cache (snd (fetchWeather
        (STATE_weather\<lparr>cache := [''erbil_c'' \<mapsto> \<lparr>ts = 1000, data = sample_payload\<rparr>]\<rparr>) True
        \<lparr>now_check = 5000, response = Http 503 (Body JNull), now_store = 5200,
         storage_ok = True, cityId_at_response = ''erbil'', units_at_response = C\<rparr>))
        ''erbil_c'' = Some \<lparr>ts = 1000, data = sample_payload\<rparr>
   \<and> lastError (renderWeatherFromCacheOrFetch
        (STATE_weather\<lparr>cache := [''erbil_c'' \<mapsto> \<lparr>ts = 1000, data = sample_payload\<rparr>]\<rparr>) True
        \<lparr>now_check = 5000, response = Http 503 (Body JNull), now_store = 5200,
         storage_ok = True, cityId_at_response = ''erbil'', units_at_response = C\<rparr>)
       = Some ''Weather request failed (503)''"
proof -
  have s: "showNat 503 = ''503''"
    by code_simp
  show ?thesis
    using fetchWeather_failure_keeps_cache [of True
      "STATE_weather\<lparr>cache := [''erbil_c'' \<mapsto> \<lparr>ts = 1000, data = sample_payload\<rparr>]\<rparr>"
      "\<lparr>now_check = 5000, response = Http 503 (Body JNull), now_store = 5200,
         storage_ok = True, cityId_at_response = ''erbil'', units_at_response = C\<rparr>"
      "''Weather request failed (503)''" 503 "Body JNull"]
    by (simp add: res_ok_def s STATE_weather_def)
qed

section \<open>Properties of the cache\<close>

lemmas fetch_defs =
  fetchWeather_def fetchWeather_begin_def fetchWeather_end_def fromCache_def buildKey_def
  getCity_def getCityIn_def APP_cities_def STATE_weather_def res_ok_def cacheSet_def
  persistWeatherCache_def cacheTtlMs_def at_response_def Let_def

lemma fromCache_truthy_iff:
  "truthy (fromCache w now) \<longleftrightarrow>
     (\<exists>entry. cache w (buildKey w) = Some entry \<and> ts entry \<noteq> 0 \<and> truthy (data entry)
        \<and> now - ts entry \<le> 600000)"
  by (auto simp: fromCache_def cacheTtlMs_def split: option.splits)

lemma fromCache_data:
  "truthy (fromCache w now) \<Longrightarrow> cache w (buildKey w) = Some entry \<Longrightarrow>
     fromCache w now = data entry"
  by (auto simp: fromCache_def split: if_splits)

lemma fetchWeather_requests:
  "\<exists>c. getCity (cityId w) = Some c \<and>
     requests (snd (fetchWeather w force e)) =
       requests w @ (if force \<or> \<not> truthy (fromCache w (now_check e)) then [(lat c, lon c)]
                     else [])"
proof (cases "force \<or> \<not> truthy (fromCache w (now_check e))")
  case True
  from fetchWeather_miss [OF True] obtain c :: city where
    c: "getCity (cityId w) = Some c" and
    f: "fetchWeather w force e =
         fetchWeather_end
           (at_response
              (w\<lparr>requests := requests w @ [(lat c, lon c)],
                 inflight := inflight w @ [(lat c, lon c)]\<rparr>) e)
           (response e) (now_store e) (storage_ok e)"
    by auto
  have "requests (snd (fetchWeather w force e)) = requests w @ [(lat c, lon c)]"
    unfolding f
    by (auto simp: fetchWeather_end_def cacheSet_def persistWeatherCache_def Let_def
        split: response.splits body.splits)
  with c True show ?thesis by auto
next
  case False
  then have "fetchWeather w force e = (Inr (fromCache w (now_check e), Cache), w)"
    using fetchWeather_hit [of force w e] by simp
  with False getCity_registered [of "cityId w"] show ?thesis by auto
qed

lemma fetchWeather_live_inv:
  assumes "fst (fetchWeather w force e) = Inr (p, Live)"
  shows "(force \<or> \<not> truthy (fromCache w (now_check e)))
    \<and> (\<exists>status. response e = Http status (Body p) \<and> res_ok status)"
proof -
  have miss: "force \<or> \<not> truthy (fromCache w (now_check e))"
  proof (rule ccontr)
    assume "\<not> (force \<or> \<not> truthy (fromCache w (now_check e)))"
    then have "fetchWeather w force e = (Inr (fromCache w (now_check e), Cache), w)"
      using fetchWeather_hit [of force w e] by simp
    with assms show False by simp
  qed
  from fetchWeather_miss [OF miss] obtain c :: city where
    f: "fetchWeather w force e =
         fetchWeather_end
           (at_response
              (w\<lparr>requests := requests w @ [(lat c, lon c)],
                 inflight := inflight w @ [(lat c, lon c)]\<rparr>) e)
           (response e) (now_store e) (storage_ok e)"
    by auto
  from assms have "\<exists>status. response e = Http status (Body p) \<and> res_ok status"
    unfolding f
    by (auto simp: fetchWeather_end_def Let_def split: response.splits body.splits if_splits)
  with miss show ?thesis by simp
qed

lemma fetchWeather_key:
  assumes "force \<or> \<not> truthy (fromCache w (now_check e))"
  shows "buildKey (snd (fetchWeather w force e)) = buildKey (at_response w e)"
proof -
  from fetchWeather_miss [OF assms] obtain c :: city where
    f: "fetchWeather w force e =
         fetchWeather_end
           (at_response
              (w\<lparr>requests := requests w @ [(lat c, lon c)],
                 inflight := inflight w @ [(lat c, lon c)]\<rparr>) e)
           (response e) (now_store e) (storage_ok e)"
    by auto
  show ?thesis
    unfolding f
    by (auto simp: fetchWeather_end_def cacheSet_def persistWeatherCache_def buildKey_def
        Let_def split: response.splits body.splits)
qed

lemma fetchWeather_cached_entry:
  assumes "\<not> force" and "truthy (fromCache w (now_check e))"
  shows "\<exists>entry. cache w (buildKey w) = Some entry \<and>
           fetchWeather w force e = (Inr (data entry, Cache), w)"
proof -
  from assms(2) obtain entry where en: "cache w (buildKey w) = Some entry"
    using fromCache_truthy_iff [of w "now_check e"] by blast
  with assms(2) have "fromCache w (now_check e) = data entry"
    using fromCache_data by blast
  with assms en show ?thesis
    using fetchWeather_hit [of force w e] by auto
qed

lemma fetchWeather_second_call:
  assumes "fst (fetchWeather w force e) = Inr (p, Live)" and "truthy p"
    and "now_store e \<noteq> 0" and "now_check e2 - now_store e \<le> 600000"
    and "cityId_at_response e = cityId w" and "units_at_response e = units w"
  shows "fetchWeather (snd (fetchWeather w force e)) False e2 =
          (Inr (p, Cache), snd (fetchWeather w force e))
        \<and> length (requests (snd (fetchWeather w force e))) = length (requests w) + 1"
proof -
  let ?w1 = "snd (fetchWeather w force e)"
  from assms(1) fetchWeather_live_inv [of w force e p] obtain status where
    miss: "force \<or> \<not> truthy (fromCache w (now_check e))" and
    resp: "response e = Http status (Body p)" "res_ok status"
    by blast
  have key: "buildKey (at_response w e) = buildKey w"
    using assms(5,6) by (rule at_response_unchanged)
  from fetchWeather_live [OF resp miss]
  have c1: "cache ?w1 = (cache w)(buildKey w \<mapsto> \<lparr>ts = now_store e, data = p\<rparr>)"
    by (simp add: key)
  have k1: "buildKey ?w1 = buildKey w"
    using fetchWeather_key [OF miss] key by simp
  have "fromCache ?w1 (now_check e2) = p"
    using assms(2,3,4) by (simp add: fromCache_def k1 c1 cacheTtlMs_def)
  with assms(2) have "fetchWeather ?w1 False e2 = (Inr (p, Cache), ?w1)"
    using fetchWeather_hit [of False ?w1 e2] by simp
  moreover have "length (requests ?w1) = length (requests w) + 1"
    using fetchWeather_requests [of w force e] miss by auto
  ultimately show ?thesis
    by simp
qed

text \<open>
  C1, as the code has it. A call of \<open>fetchWeather\<close> sends a request exactly when \<open>force\<close>
  is set or \<open>fromCache\<close> finds no valid entry under the key, and then it sends one. With
  a valid entry and no \<open>force\<close> it returns that entry's data with source \<open>cache\<close> and
  changes nothing, so sends nothing. Hence, after a call that returned a payload live,
  when that payload is truthy, was stored at a time that is not 0, and the selection
  was not changed while the request was in flight, a call without \<open>force\<close> at most
  600000 ms after that time returns the same payload from the cache and sends nothing:
  the two calls send exactly one request.
\<close>

theorem fetchWeather_cache_discipline:
  "(\<exists>c. getCity (cityId w) = Some c \<and>
      requests (snd (fetchWeather w force e)) =
        requests w @ (if force \<or> \<not> truthy (fromCache w (now_check e)) then [(lat c, lon c)]
                      else []))
   \<and> (\<not> force \<and> truthy (fromCache w (now_check e)) \<longrightarrow>
        (\<exists>entry. cache w (buildKey w) = Some entry \<and>
           fetchWeather w force e = (Inr (data entry, Cache), w)))
   \<and> (fst (fetchWeather w force e) = Inr (p, Live) \<and> truthy p \<and> now_store e \<noteq> 0
        \<and> now_check e2 - now_store e \<le> 600000
        \<and> cityId_at_response e = cityId w \<and> units_at_response e = units w \<longrightarrow>
        fetchWeather (snd (fetchWeather w force e)) False e2 =
          (Inr (p, Cache), snd (fetchWeather w force e))
        \<and> length (requests (snd (fetchWeather w force e))) = length (requests w) + 1)"
  using fetchWeather_requests [of w force e] fetchWeather_cached_entry [of force w e]
    fetchWeather_second_call [of w force e p e2]
  by blast

theorem fetchWeather_cache_discipline_witness:
  "fst (fetchWeather STATE_weather False
      (reply 1700000000000 (Http 200 (Body sample_payload)) ''erbil'' C))
     = Inr (sample_payload, Live)
   \<and> truthy sample_payload
   \<and> now_store (reply 1700000000000 (Http 200 (Body sample_payload)) ''erbil'' C) = 1700000000200
   \<and> (1700000600200::int) - 1700000000200 \<le> 600000
   \<and> fst (fetchWeather
        (snd (fetchWeather STATE_weather False
          (reply 1700000000000 (Http 200 (Body sample_payload)) ''erbil'' C))) False
        (reply 1700000600200 (Rejected ''offline'') ''erbil'' C))
       = Inr (sample_payload, Cache)
   \<and> length (requests
        (snd (fetchWeather STATE_weather False
          (reply 1700000000000 (Http 200 (Body sample_payload)) ''erbil'' C)))) = 1
   \<and> truthy (fromCache
        (STATE_weather\<lparr>cache := [''erbil_c'' \<mapsto> \<lparr>ts = 1700000000200, data = sample_payload\<rparr>]\<rparr>)
        1700000600200)
   \<and> fetchWeather
        (STATE_weather\<lparr>cache := [''erbil_c'' \<mapsto> \<lparr>ts = 1700000000200, data = sample_payload\<rparr>]\<rparr>)
        False (reply 1700000600200 (Rejected ''offline'') ''erbil'' C)
       = (Inr (sample_payload, Cache),
          STATE_weather\<lparr>cache := [''erbil_c'' \<mapsto> \<lparr>ts = 1700000000200, data = sample_payload\<rparr>]\<rparr>)"
proof -
  let ?e1 = "reply 1700000000000 (Http 200 (Body sample_payload)) ''erbil'' C"
  let ?e2 = "reply 1700000600200 (Rejected ''offline'') ''erbil'' C"
  let ?w = "STATE_weather\<lparr>cache := [''erbil_c'' \<mapsto> \<lparr>ts = 1700000000200, data = sample_payload\<rparr>]\<rparr>"
  have live: "fst (fetchWeather STATE_weather False ?e1) = Inr (sample_payload, Live)"
    by (simp add: fetch_defs reply_def)
  have tr: "truthy sample_payload"
    by (simp add: sample_payload_def)
  have e1: "now_store ?e1 = 1700000000200" "now_check ?e2 = 1700000600200"
    "cityId_at_response ?e1 = cityId STATE_weather" "units_at_response ?e1 = units STATE_weather"
    by (simp_all add: reply_def STATE_weather_def)
  have hit: "truthy (fromCache ?w 1700000600200)"
    by (simp add: fromCache_def buildKey_def STATE_weather_def cacheTtlMs_def tr)
  have two: "fetchWeather (snd (fetchWeather STATE_weather False ?e1)) False ?e2 =
          (Inr (sample_payload, Cache), snd (fetchWeather STATE_weather False ?e1))
        \<and> length (requests (snd (fetchWeather STATE_weather False ?e1)))
            = length (requests STATE_weather) + 1"
    using fetchWeather_cache_discipline [of STATE_weather False ?e1 sample_payload ?e2]
      live tr e1
    by simp
  have served: "fetchWeather ?w False ?e2 = (Inr (sample_payload, Cache), ?w)"
    using fetchWeather_cache_discipline [of ?w False ?e2 JNull ?e1] hit
    by (auto simp: STATE_weather_def buildKey_def reply_def)
  from live tr hit two served e1 show ?thesis
    by (simp add: STATE_weather_def)
qed

text \<open>
  C1 as stated fails: two calls without \<open>force\<close>, 800 ms apart and with the selection
  untouched, both send a request when the body of the (successful) response is \<open>null\<close>,
  because \<open>fromCache\<close> returns \<open>entry.data || null\<close> and \<open>fetchWeather\<close> tests
  \<open>if (cached)\<close>; the same happens for a payload stored when the clock reads 0, because
  of the guard \<open>!entry.ts\<close>.
\<close>

theorem fetchWeather_two_calls_counterexample:
  "now_store (reply 1700000000000 (Http 200 (Body JNull)) ''erbil'' C) = 1700000000200
   \<and> now_check (reply 1700000001000 (Http 200 (Body JNull)) ''erbil'' C) = 1700000001000
   \<and> (1700000001000::int) - 1700000000200 \<le> 600000
   \<and> length (requests (snd (fetchWeather
        (snd (fetchWeather STATE_weather False
          (reply 1700000000000 (Http 200 (Body JNull)) ''erbil'' C))) False
        (reply 1700000001000 (Http 200 (Body JNull)) ''erbil'' C)))) = 2
   \<and> fst (fetchWeather
        (snd (fetchWeather STATE_weather False
          (reply 1700000000000 (Http 200 (Body JNull)) ''erbil'' C))) False
        (reply 1700000001000 (Http 200 (Body JNull)) ''erbil'' C)) = Inr (JNull, Live)
   \<and> now_store (reply (- 200) (Http 200 (Body sample_payload)) ''erbil'' C) = 0
   \<and> (1000::int) - 0 \<le> 600000
   \<and> length (requests (snd (fetchWeather
        (snd (fetchWeather STATE_weather False
          (reply (- 200) (Http 200 (Body sample_payload)) ''erbil'' C))) False
        (reply 1000 (Http 200 (Body sample_payload)) ''erbil'' C)))) = 2"
  by (simp add: fetch_defs reply_def sample_payload_def)

text \<open>
  What the condition on the selection leaves out. When the city is changed while the
  request is in flight, the response is not discarded: \<open>cacheSet\<close> stores it under the
  key of the new selection. Here the request is the one for Erbil (its coordinates), the
  city is Duhok when the response arrives, and the payload ends under \<open>duhok_c\<close> while
  \<open>erbil_c\<close> stays empty; a later call for Erbil sends a request again, and a later
  call for Duhok is served this payload from the cache.
\<close>

lemma response_after_change_of_city:
  "requests (snd (fetchWeather STATE_weather False
      (reply 1700000000000 (Http 200 (Body sample_payload)) ''duhok'' C)))
     = [(36.1911, 44.0092)]
   \<and> cache (snd (fetchWeather STATE_weather False
      (reply 1700000000000 (Http 200 (Body sample_payload)) ''duhok'' C))) ''erbil_c'' = None
   \<and> cache (snd (fetchWeather STATE_weather False
      (reply 1700000000000 (Http 200 (Body sample_payload)) ''duhok'' C))) ''duhok_c''
     = Some \<lparr>ts = 1700000000200, data = sample_payload\<rparr>
   \<and> fst (fetchWeather
        (snd (fetchWeather STATE_weather False
          (reply 1700000000000 (Http 200 (Body sample_payload)) ''duhok'' C)))
        False (reply 1700000001000 (Rejected ''offline'') ''duhok'' C))
     = Inr (sample_payload, Cache)
   \<and> length (requests (snd (fetchWeather
        ((snd (fetchWeather STATE_weather False
          (reply 1700000000000 (Http 200 (Body sample_payload)) ''duhok'' C)))
         \<lparr>cityId := ''erbil''\<rparr>)
        False (reply 1700000001000 (Rejected ''offline'') ''erbil'' C)))) = 2"
  by (simp add: fetch_defs reply_def sample_payload_def)

lemma fetchWeather_stale:
  assumes "cache w (buildKey w) = Some entry" and "now_check e - ts entry > 600000"
    and "response e = Http status (Body json)" and "res_ok status"
    and "cityId_at_response e = cityId w" and "units_at_response e = units w"
  shows "(\<exists>c. getCity (cityId w) = Some c \<and>
            requests (snd (fetchWeather w False e)) = requests w @ [(lat c, lon c)])
    \<and> fst (fetchWeather w False e) = Inr (json, Live)
    \<and> cache (snd (fetchWeather w False e)) =
        (cache w)(buildKey w \<mapsto> \<lparr>ts = now_store e, data = json\<rparr>)"
proof -
  have miss: "False \<or> \<not> truthy (fromCache w (now_check e))"
    using assms(1,2) by (simp add: fromCache_def cacheTtlMs_def)
  have key: "buildKey (at_response w e) = buildKey w"
    using assms(5,6) by (rule at_response_unchanged)
  from fetchWeather_requests [of w False e] miss fetchWeather_live [OF assms(3,4) miss]
  show ?thesis by (auto simp: key)
qed

text \<open>
  C2, as the code has it. \<open>fromCache\<close> treats the entry under the key as valid exactly
  when its \<open>ts\<close> is not 0, its \<open>data\<close> is truthy and \<open>now - ts\<close> is at most 600000.
  When the entry is older than 600000 ms, a call without \<open>force\<close> sends a request, and
  on a successful response, the selection not having changed while the request was in
  flight, returns the body live and overwrites the entry under the same key with that
  body and the time of the write; every other key keeps its entry.
\<close>

theorem fromCache_validity:
  "(truthy (fromCache w now) \<longleftrightarrow>
      (\<exists>entry. cache w (buildKey w) = Some entry \<and> ts entry \<noteq> 0 \<and> truthy (data entry)
         \<and> now - ts entry \<le> 600000))
   \<and> (cache w (buildKey w) = Some old \<and> now_check e - ts old > 600000
        \<and> response e = Http status (Body json) \<and> res_ok status
        \<and> cityId_at_response e = cityId w \<and> units_at_response e = units w \<longrightarrow>
        (\<exists>c. getCity (cityId w) = Some c \<and>
            requests (snd (fetchWeather w False e)) = requests w @ [(lat c, lon c)])
        \<and> fst (fetchWeather w False e) = Inr (json, Live)
        \<and> cache (snd (fetchWeather w False e)) =
            (cache w)(buildKey w \<mapsto> \<lparr>ts = now_store e, data = json\<rparr>))"
  using fromCache_truthy_iff [of w now] fetchWeather_stale [of w old e status json]
  by blast

theorem fromCache_validity_witness:
  "cache (STATE_weather\<lparr>cache := [''erbil_c'' \<mapsto> \<lparr>ts = 1700000000000, data = JStr ''old''\<rparr>]\<rparr>)
      ''erbil_c'' = Some \<lparr>ts = 1700000000000, data = JStr ''old''\<rparr>
   \<and> (1700000600001::int) - 1700000000000 > 600000
   \<and> fst (fetchWeather
        (STATE_weather\<lparr>cache := [''erbil_c'' \<mapsto> \<lparr>ts = 1700000000000, data = JStr ''old''\<rparr>]\<rparr>)
        False (reply 1700000600001 (Http 200 (Body sample_payload)) ''erbil'' C))
       = Inr (sample_payload, Live)
   \<and> cache (snd (fetchWeather
        (STATE_weather\<lparr>cache := [''erbil_c'' \<mapsto> \<lparr>ts = 1700000000000, data = JStr ''old''\<rparr>]\<rparr>)
        False (reply 1700000600001 (Http 200 (Body sample_payload)) ''erbil'' C))) ''erbil_c''
       = Some \<lparr>ts = 1700000600201, data = sample_payload\<rparr>
   \<and> length (requests (snd (fetchWeather
        (STATE_weather\<lparr>cache := [''erbil_c'' \<mapsto> \<lparr>ts = 1700000000000, data = JStr ''old''\<rparr>]\<rparr>)
        False (reply 1700000600001 (Http 200 (Body sample_payload)) ''erbil'' C)))) = 1"
  using fromCache_validity [of
      "STATE_weather\<lparr>cache := [''erbil_c'' \<mapsto> \<lparr>ts = 1700000000000, data = JStr ''old''\<rparr>]\<rparr>"
      0 "\<lparr>ts = 1700000000000, data = JStr ''old''\<rparr>"
      "reply 1700000600001 (Http 200 (Body sample_payload)) ''erbil'' C" 200 sample_payload]
  by (auto simp: STATE_weather_def buildKey_def res_ok_def reply_def)

text \<open>
  C2 as stated fails: an entry not older than 600000 ms is not valid when its data is
  falsy (here the entry that \<open>fetchWeather\<close> itself wrote for a response whose body is
  \<open>null\<close>, read 800 ms later), nor when its \<open>ts\<close> is 0.
\<close>

theorem fromCache_validity_counterexample:
  "cache (snd (fetchWeather STATE_weather False
        (reply 1700000000000 (Http 200 (Body JNull)) ''erbil'' C))) ''erbil_c''
      = Some \<lparr>ts = 1700000000200, data = JNull\<rparr>
   \<and> (1700000001000::int) - 1700000000200 \<le> 600000
   \<and> fromCache (snd (fetchWeather STATE_weather False
        (reply 1700000000000 (Http 200 (Body JNull)) ''erbil'' C))) 1700000001000 = JNull
   \<and> cache (STATE_weather\<lparr>cache := [''erbil_c'' \<mapsto> \<lparr>ts = 0, data = sample_payload\<rparr>]\<rparr>)
        (buildKey
          (STATE_weather\<lparr>cache := [''erbil_c'' \<mapsto> \<lparr>ts = 0, data = sample_payload\<rparr>]\<rparr>))
      = Some \<lparr>ts = 0, data = sample_payload\<rparr>
   \<and> (1000::int) - 0 \<le> 600000
   \<and> fromCache (STATE_weather\<lparr>cache := [''erbil_c'' \<mapsto> \<lparr>ts = 0, data = sample_payload\<rparr>]\<rparr>)
        1000 = JNull"
  by (simp add: fetch_defs reply_def)

section \<open>Properties of the fetch flow\<close>

lemma begin_while_loading:
  "isLoading w \<Longrightarrow> renderWeatherFromCacheOrFetch_begin w force now = w"
  by (simp add: renderWeatherFromCacheOrFetch_begin_def)

lemma whole_while_loading:
  "isLoading w \<Longrightarrow> renderWeatherFromCacheOrFetch w force e = w"
  by (simp add: renderWeatherFromCacheOrFetch_def)

lemma finish_flow_fields:
  "inflight (finish_flow r w) = inflight w \<and> \<not> isLoading (finish_flow r w)"
  by (cases r) (auto simp: finish_flow_def)

lemma begin_idle:
  assumes "\<not> isLoading w"
  shows "(inflight (renderWeatherFromCacheOrFetch_begin w force now) = inflight w
          \<and> \<not> isLoading (renderWeatherFromCacheOrFetch_begin w force now))
       \<or> (\<exists>r. inflight (renderWeatherFromCacheOrFetch_begin w force now) = inflight w @ [r]
          \<and> isLoading (renderWeatherFromCacheOrFetch_begin w force now))"
proof -
  let ?w1 = "w\<lparr>isLoading := True, lastError := None, view := Skeleton\<rparr>"
  from fetchWeather_begin_cases [of ?w1 force now] obtain c :: city where
    b: "fetchWeather_begin ?w1 force now =
       (if \<not> force \<and> truthy (fromCache ?w1 now)
        then (Returned (Inr (fromCache ?w1 now, Cache)), ?w1)
        else (Awaiting, ?w1\<lparr>requests := requests ?w1 @ [(lat c, lon c)],
                          inflight := inflight ?w1 @ [(lat c, lon c)]\<rparr>))"
    by auto
  show ?thesis
  proof (cases "\<not> force \<and> truthy (fromCache ?w1 now)")
    case True
    with b assms have "renderWeatherFromCacheOrFetch_begin w force now =
        finish_flow (Inr (fromCache ?w1 now, Cache)) ?w1"
      by (simp add: renderWeatherFromCacheOrFetch_begin_def)
    then show ?thesis
      using finish_flow_fields [of "Inr (fromCache ?w1 now, Cache)" ?w1] by simp
  next
    case False
    with b assms have "renderWeatherFromCacheOrFetch_begin w force now =
        ?w1\<lparr>requests := requests ?w1 @ [(lat c, lon c)],
            inflight := inflight ?w1 @ [(lat c, lon c)]\<rparr>"
      by (auto simp: renderWeatherFromCacheOrFetch_begin_def)
    then show ?thesis by simp
  qed
qed

lemma end_fields:
  "inflight (renderWeatherFromCacheOrFetch_end w r now ok) = tl (inflight w)
   \<and> \<not> isLoading (renderWeatherFromCacheOrFetch_end w r now ok)"
proof -
  have "inflight (snd (fetchWeather_end w r now ok)) = tl (inflight w)"
    by (auto simp: fetchWeather_end_def cacheSet_def persistWeatherCache_def Let_def
        split: response.splits body.splits)
  then show ?thesis
    using finish_flow_fields
    by (cases "fetchWeather_end w r now ok") (simp add: renderWeatherFromCacheOrFetch_end_def)
qed

lemma begin_single_flight:
  assumes "single_flight w"
  shows "single_flight (renderWeatherFromCacheOrFetch_begin w force now)"
proof (cases "isLoading w")
  case True
  with assms show ?thesis by (simp add: begin_while_loading)
next
  case False
  with assms have "inflight w = []" by (auto simp: single_flight_def)
  with begin_idle [OF False, of force now] show ?thesis
    by (auto simp: single_flight_def)
qed

lemma step_single_flight:
  assumes "step w w'" and "single_flight w"
  shows "single_flight w'"
  using assms
proof (induction rule: step.induct)
  case (invoke w force now)
  then show ?case by (rule begin_single_flight)
next
  case (select_city w ok i now)
  have "single_flight (w\<lparr>cityId := i\<rparr>)"
    using select_city by (simp add: single_flight_def)
  then show ?case
    using begin_single_flight [of "w\<lparr>cityId := i\<rparr>" False now] by simp
next
  case (select_units w ok u now)
  have "single_flight (w\<lparr>units := u\<rparr>)"
    using select_units by (simp add: single_flight_def)
  then show ?case
    using begin_single_flight [of "w\<lparr>units := u\<rparr>" False now] by simp
next
  case (respond w r now ok)
  then have "tl (inflight w) = []"
    by (cases "inflight w") (auto simp: single_flight_def)
  then show ?case
    using end_fields [of w r now ok] by (simp add: single_flight_def)
qed

lemma reachable_single_flight: "reachable w \<Longrightarrow> single_flight w"
proof (induction rule: reachable.induct)
  case (at_load w)
  then show ?case by (simp add: single_flight_def)
next
  case (after_step w w')
  then show ?case using step_single_flight by blast
qed

text \<open>
  A whole run and the steps of the page. While a request is in flight a change of the
  city or of the units is a step that writes the selection and nothing else; and a whole
  run of the flow that goes to the network is its first part, such changes, and the
  step of the response.
\<close>

lemma change_in_flight:
  "isLoading w \<Longrightarrow> step w (w\<lparr>cityId := i\<rparr>) \<and> step w (w\<lparr>units := u\<rparr>)"
proof -
  assume l: "isLoading w"
  have a: "renderWeatherFromCacheOrFetch_begin (w\<lparr>cityId := i\<rparr>) False 0 = w\<lparr>cityId := i\<rparr>"
    using l by (simp add: renderWeatherFromCacheOrFetch_begin_def)
  have b: "renderWeatherFromCacheOrFetch_begin (w\<lparr>units := u\<rparr>) False 0 = w\<lparr>units := u\<rparr>"
    using l by (simp add: renderWeatherFromCacheOrFetch_begin_def)
  from step.select_city [of w True i 0] step.select_units [of w True u 0] a b
  show ?thesis by simp
qed

lemma whole_run_in_steps:
  assumes "\<not> isLoading w" and "force \<or> \<not> truthy (fromCache w (now_check e))"
  shows "renderWeatherFromCacheOrFetch w force e =
     renderWeatherFromCacheOrFetch_end
       (at_response (renderWeatherFromCacheOrFetch_begin w force (now_check e)) e)
       (response e) (now_store e) (storage_ok e)
   \<and> isLoading (renderWeatherFromCacheOrFetch_begin w force (now_check e))
   \<and> inflight (renderWeatherFromCacheOrFetch_begin w force (now_check e)) \<noteq> []"
proof -
  let ?w1 = "w\<lparr>isLoading := True, lastError := None, view := Skeleton\<rparr>"
  have miss: "\<not> (\<not> force \<and> truthy (fromCache ?w1 (now_check e)))"
    using assms(2) by simp
  from fetchWeather_begin_cases [of ?w1 force "now_check e"] obtain c :: city where
    b: "fetchWeather_begin ?w1 force (now_check e) =
          (Awaiting, ?w1\<lparr>requests := requests ?w1 @ [(lat c, lon c)],
                          inflight := inflight ?w1 @ [(lat c, lon c)]\<rparr>)"
    using miss by auto
  show ?thesis
    using assms(1)
    by (simp add: renderWeatherFromCacheOrFetch_def renderWeatherFromCacheOrFetch_begin_def
        renderWeatherFromCacheOrFetch_end_def fetchWeather_def b)
qed

text \<open>
  C5. While \<open>isLoading\<close> is set, an invocation of the flow returns the state it found:
  no request is sent and nothing changes. So in every state that the page can reach,
  whatever the order of invocations, changes of city or units and responses, at most
  one request is in flight, and \<open>isLoading\<close> is set while one is.
\<close>

theorem isLoading_guard_single_flight:
  "(isLoading w \<longrightarrow>
      renderWeatherFromCacheOrFetch_begin w force now = w
      \<and> renderWeatherFromCacheOrFetch w force e = w)
   \<and> (reachable w \<longrightarrow> length (inflight w) \<le> 1 \<and> (inflight w \<noteq> [] \<longrightarrow> isLoading w))"
  using begin_while_loading [of w force now] whole_while_loading [of w force e]
    reachable_single_flight [of w]
  by (auto simp: single_flight_def)

theorem isLoading_guard_single_flight_witness:
  "reachable (renderWeatherFromCacheOrFetch_begin STATE_weather False 1000)
   \<and> isLoading (renderWeatherFromCacheOrFetch_begin STATE_weather False 1000)
   \<and> inflight (renderWeatherFromCacheOrFetch_begin STATE_weather False 1000)
       = [(36.1911, 44.0092)]
   \<and> renderWeatherFromCacheOrFetch_begin
        (renderWeatherFromCacheOrFetch_begin STATE_weather False 1000) True 2000
       = renderWeatherFromCacheOrFetch_begin STATE_weather False 1000
   \<and> requests (renderWeatherFromCacheOrFetch_begin
        (renderWeatherFromCacheOrFetch_begin STATE_weather False 1000) True 2000)
       = [(36.1911, 44.0092)]"
proof -
  let ?w1 = "renderWeatherFromCacheOrFetch_begin STATE_weather False 1000"
  have "reachable STATE_weather"
    by (rule reachable.at_load) (simp_all add: STATE_weather_def)
  then have r: "reachable ?w1"
    using step.invoke [of STATE_weather False 1000] by (rule reachable.after_step)
  have l: "isLoading ?w1 \<and> inflight ?w1 = [(36.1911, 44.0092)]
      \<and> requests ?w1 = [(36.1911, 44.0092)]"
    by (simp add: renderWeatherFromCacheOrFetch_begin_def fetchWeather_begin_def
        fromCache_def buildKey_def getCity_def getCityIn_def APP_cities_def STATE_weather_def)
  show ?thesis
    using isLoading_guard_single_flight [of ?w1 True 2000] r l by simp
qed

section \<open>Properties of the forecast rows\<close>

lemma hourly_payload_fields:
  "array_field (hourly_of (hourly_payload nt nc nk nw nh)) ''time''
      = replicate nt (JStr ''2024-05-01T00:00'')
   \<and> array_field (hourly_of (hourly_payload nt nc nk nw nh)) ''temperature_2m''
      = replicate nc (JNum (Num 20))
   \<and> array_field (hourly_of (hourly_payload nt nc nk nw nh)) ''weather_code''
      = replicate nk (JNum (Num 3))
   \<and> array_field (hourly_of (hourly_payload nt nc nk nw nh)) ''wind_speed_10m''
      = replicate nw (JNum (Num 10))
   \<and> array_field (hourly_of (hourly_payload nt nc nk nw nh)) ''relative_humidity_2m''
      = replicate nh (JNum (Num 40))"
  by (simp add: hourly_payload_def hourly_of_def array_field_def)

lemma length_forecastRows: "length (forecastRows cv u d) = forecast_count (hourly_of d)"
  by (simp add: forecastRows_def)

lemma nth_forecastRows:
  "i < forecast_count (hourly_of d) \<Longrightarrow>
     forecastRows cv u d ! i = forecast_row_at cv u (hourly_of d) i"
  by (simp add: forecastRows_def)

lemma formatNumber_missing: "formatNumber cv JUndefined n = Dash"
  by (simp add: formatNumber_def)

lemma row_wind_missing:
  "length (array_field h ''wind_speed_10m'') \<le> i \<Longrightarrow> row_wind (forecast_row_at cv u h i) = Dash"
  by (cases u) (simp_all add: forecast_row_at_def at_index_def formatNumber_def Let_def)

lemma row_hum_missing:
  "length (array_field h ''relative_humidity_2m'') \<le> i \<Longrightarrow>
     row_hum (forecast_row_at cv u h i) = Dash"
  by (simp add: forecast_row_at_def at_index_def formatNumber_def Let_def)

lemma row_in_range:
  assumes "i < forecast_count h"
  shows "row_time (forecast_row_at cv u h i) = array_field h ''time'' ! i
    \<and> row_icon (forecast_row_at cv u h i) = codeToIcon cv (array_field h ''weather_code'' ! i)
    \<and> row_temp (forecast_row_at cv u h i) =
        formatNumber cv
          (if u = F then JNum (toF (Number_js cv (array_field h ''temperature_2m'' ! i)))
           else array_field h ''temperature_2m'' ! i) 0"
  using assms
  by (simp add: forecast_row_at_def forecast_count_def at_index_def Let_def)

text \<open>
  C3, as the code has it. The forecast card has exactly
  \<open>min(8, times.length, tempsC.length, codes.length)\<close> rows: at most eight, and the
  lengths of the wind and humidity arrays do not count. Row \<open>i\<close> is built from index
  \<open>i\<close> of each array; the reads of time, temperature and weather code are in range, and
  a wind or humidity array that is too short gives \<open>undefined\<close>, which is shown as a
  dash: no read fails.
\<close>

theorem forecastRows_count:
  "length (forecastRows cv u d) =
     min 8 (min (length (array_field (hourly_of d) ''time''))
             (min (length (array_field (hourly_of d) ''temperature_2m''))
                  (length (array_field (hourly_of d) ''weather_code''))))
   \<and> (\<forall>i < length (forecastRows cv u d).
        forecastRows cv u d ! i = forecast_row_at cv u (hourly_of d) i
        \<and> row_time (forecastRows cv u d ! i) = array_field (hourly_of d) ''time'' ! i
        \<and> row_icon (forecastRows cv u d ! i) =
            codeToIcon cv (array_field (hourly_of d) ''weather_code'' ! i)
        \<and> row_temp (forecastRows cv u d ! i) =
            formatNumber cv
              (if u = F
               then JNum (toF (Number_js cv (array_field (hourly_of d) ''temperature_2m'' ! i)))
               else array_field (hourly_of d) ''temperature_2m'' ! i) 0
        \<and> (length (array_field (hourly_of d) ''wind_speed_10m'') \<le> i \<longrightarrow>
             row_wind (forecastRows cv u d ! i) = Dash)
        \<and> (length (array_field (hourly_of d) ''relative_humidity_2m'') \<le> i \<longrightarrow>
             row_hum (forecastRows cv u d ! i) = Dash))"
proof (intro conjI allI impI)
  show "length (forecastRows cv u d) =
     min 8 (min (length (array_field (hourly_of d) ''time''))
             (min (length (array_field (hourly_of d) ''temperature_2m''))
                  (length (array_field (hourly_of d) ''weather_code''))))"
    by (simp add: length_forecastRows forecast_count_def)
next
  fix i assume "i < length (forecastRows cv u d)"
  then have i: "i < forecast_count (hourly_of d)"
    by (simp add: length_forecastRows)
  note n = nth_forecastRows [OF i, of cv u]
  show "forecastRows cv u d ! i = forecast_row_at cv u (hourly_of d) i"
    by (rule n)
  show "row_time (forecastRows cv u d ! i) = array_field (hourly_of d) ''time'' ! i"
    using row_in_range [OF i, of cv u] by (simp add: n)
  show "row_icon (forecastRows cv u d ! i) =
            codeToIcon cv (array_field (hourly_of d) ''weather_code'' ! i)"
    using row_in_range [OF i, of cv u] by (simp add: n)
  show "row_temp (forecastRows cv u d ! i) =
            formatNumber cv
              (if u = F
               then JNum (toF (Number_js cv (array_field (hourly_of d) ''temperature_2m'' ! i)))
               else array_field (hourly_of d) ''temperature_2m'' ! i) 0"
    using row_in_range [OF i, of cv u] by (simp add: n)
  show "row_wind (forecastRows cv u d ! i) = Dash"
    if "length (array_field (hourly_of d) ''wind_speed_10m'') \<le> i"
    using that by (simp add: n row_wind_missing)
  show "row_hum (forecastRows cv u d ! i) = Dash"
    if "length (array_field (hourly_of d) ''relative_humidity_2m'') \<le> i"
    using that by (simp add: n row_hum_missing)
qed

theorem forecastRows_count_witness:
  "length (forecastRows (\<lambda>v. NaN) F (hourly_payload 24 24 5 2 1)) = 5
   \<and> (3::nat) < 5
   \<and> row_wind (forecastRows (\<lambda>v. NaN) F (hourly_payload 24 24 5 2 1) ! 3) = Dash
   \<and> row_hum (forecastRows (\<lambda>v. NaN) F (hourly_payload 24 24 5 2 1) ! 3) = Dash
   \<and> row_temp (forecastRows (\<lambda>v. NaN) F (hourly_payload 24 24 5 2 1) ! 3) = Localized 68 0
   \<and> label (row_icon (forecastRows (\<lambda>v. NaN) F (hourly_payload 24 24 5 2 1) ! 3)) = ''Overcast''"
proof -
  let ?rows = "forecastRows (\<lambda>v. NaN) F (hourly_payload 24 24 5 2 1)"
  note t = forecastRows_count [of "\<lambda>v. NaN" F "hourly_payload 24 24 5 2 1"]
  from t have len: "length ?rows = 5"
    by (simp add: hourly_payload_fields)
  then have i: "3 < length ?rows"
    by simp
  note r = t [THEN conjunct2, rule_format, OF i]
  from r len show ?thesis
    by (simp add: hourly_payload_fields formatNumber_def toF_20 codeToIcon_num
        forecast_row_at_def at_index_def Let_def)
qed

text \<open>
  C3 as stated fails: 24 temperatures with 20 weather codes give 8 rows, not 20 (the
  cap of 8), and six entries everywhere but two wind speeds give 6 rows, not 2.
\<close>

theorem forecastRows_count_counterexample:
  "length (forecastRows (\<lambda>v. NaN) C (hourly_payload 24 24 20 24 24)) = 8
   \<and> length (forecastRows (\<lambda>v. NaN) C (hourly_payload 6 6 6 2 6)) = 6"
  by (simp add: length_forecastRows forecast_count_def hourly_payload_fields)

section \<open>Properties of the shopping cart\<close>

lemma strict_eq_iff: "i \<noteq> NaN \<Longrightarrow> strict_eq a i \<longleftrightarrow> a = i"
  by (auto simp: strict_eq_def)

lemma strict_eq_NaN: "strict_eq a b \<Longrightarrow> b \<noteq> NaN \<and> a = b"
  by (simp add: strict_eq_def)

lemma inc_first_ids: "map prod_id (inc_first i cart) = map prod_id cart"
  by (induction cart) auto

lemma inc_first_distinct:
  fixes cart :: "cart_item list"
  assumes "i \<noteq> NaN" and "distinct (map prod_id cart)"
  shows "inc_first i cart = map (\<lambda>y. if prod_id y = i then y\<lparr>qty := qty y + 1\<rparr> else y) cart"
  using assms(2)
proof (induction cart)
  case Nil
  show ?case by simp
next
  case (Cons x xs)
  show ?case
  proof (cases "prod_id x = i")
    case True
    from Cons.prems have "prod_id x \<notin> prod_id ` set xs" by simp
    with True have "\<forall>y \<in> set xs. prod_id y \<noteq> i" by (metis imageI)
    then have "map (\<lambda>y. if prod_id y = i then y\<lparr>qty := qty y + 1\<rparr> else y) xs = xs"
      by (induction xs) auto
    with True assms(1) show ?thesis by (simp add: strict_eq_iff)
  next
    case False
    with Cons assms(1) show ?thesis by (simp add: strict_eq_iff)
  qed
qed

lemma find_cart_None:
  fixes cart :: "cart_item list"
  shows "i \<noteq> NaN \<Longrightarrow> find (\<lambda>x. strict_eq (prod_id x) i) cart = None \<longleftrightarrow> i \<notin> prod_id ` set cart"
  by (auto simp: find_None_iff strict_eq_iff)

lemma add_to_cart_existing:
  fixes cart :: "cart_item list"
  assumes "find (\<lambda>p. strict_eq (prod_id p) (Number_js cv d)) products = Some p"
    and "Number_js cv d \<in> prod_id ` set cart"
  shows "add_to_cart cv cart (Button d) = inc_first (Number_js cv d) cart"
proof -
  from assms(1) have n: "Number_js cv d \<noteq> NaN"
    by (auto simp: find_Some_iff dest: strict_eq_NaN)
  with assms(2) have "find (\<lambda>x. strict_eq (prod_id x) (Number_js cv d)) cart \<noteq> None"
    by (simp add: find_cart_None)
  with assms(1) show ?thesis
    by (auto simp: add_to_cart_def Let_def)
qed

lemma add_to_cart_new:
  fixes cart :: "cart_item list"
  assumes "find (\<lambda>p. strict_eq (prod_id p) (Number_js cv d)) products = Some p"
    and "Number_js cv d \<notin> prod_id ` set cart"
  shows "add_to_cart cv cart (Button d) =
      cart @ [\<lparr>prod_id = prod_id p, prod_name = prod_name p, price = price p,
               image = image p, qty = 1\<rparr>]
    \<and> prod_id p = Number_js cv d"
proof -
  from assms(1) have n: "Number_js cv d \<noteq> NaN" and e: "prod_id p = Number_js cv d"
    by (auto simp: find_Some_iff dest: strict_eq_NaN)
  with assms(2) have "find (\<lambda>x. strict_eq (prod_id x) (Number_js cv d)) cart = None"
    by (simp add: find_cart_None)
  with assms(1) e show ?thesis
    by (auto simp: add_to_cart_def Let_def)
qed

lemma add_to_cart_no_product:
  "find (\<lambda>p. strict_eq (prod_id p) (Number_js cv d)) products = None \<Longrightarrow>
     add_to_cart cv cart (Button d) = cart"
  by (simp add: add_to_cart_def Let_def)

lemma add_to_cart_distinct:
  fixes cart :: "cart_item list"
  assumes "distinct (map prod_id cart)"
  shows "distinct (map prod_id (add_to_cart cv cart ev))"
proof (cases ev)
  case NotButton
  with assms show ?thesis by (simp add: add_to_cart_def)
next
  case (Button d)
  show ?thesis
  proof (cases "find (\<lambda>p. strict_eq (prod_id p) (Number_js cv d)) products")
    case None
    with assms Button show ?thesis by (simp add: add_to_cart_no_product)
  next
    case (Some p)
    show ?thesis
    proof (cases "Number_js cv d \<in> prod_id ` set cart")
      case True
      with Some assms Button show ?thesis
        by (simp add: add_to_cart_existing inc_first_ids)
    next
      case False
      from add_to_cart_new [OF Some False] False assms Button show ?thesis
        by auto
    qed
  qed
qed

lemma foldl_add_distinct:
  fixes cart :: "cart_item list"
  shows "distinct (map prod_id cart) \<Longrightarrow> distinct (map prod_id (foldl (add_to_cart cv) cart evs))"
  by (induction evs arbitrary: cart) (auto simp: add_to_cart_distinct)

text \<open>
  C10. After any sequence of clicks from the empty cart, the ids of the cart's entries
  are pairwise distinct, and each click keeps them so. A click on the button of a
  product that the cart holds adds 1 to the \<open>qty\<close> of that entry and changes no other
  entry; on a product that the cart does not hold it appends the product with \<open>qty\<close> 1;
  a click whose id matches no product, or on something that is no button, leaves the
  cart as it is.
\<close>

theorem cart_ids_distinct:
  fixes cart :: "cart_item list"
  shows "distinct (map prod_id (cart_after cv evs))
   \<and> (distinct (map prod_id cart) \<longrightarrow> distinct (map prod_id (add_to_cart cv cart ev)))
   \<and> (distinct (map prod_id cart)
        \<and> find (\<lambda>p. strict_eq (prod_id p) (Number_js cv d)) products = Some p
        \<and> Number_js cv d \<in> prod_id ` set cart \<longrightarrow>
        add_to_cart cv cart (Button d) =
          map (\<lambda>y. if prod_id y = Number_js cv d then y\<lparr>qty := qty y + 1\<rparr> else y) cart)
   \<and> (find (\<lambda>p. strict_eq (prod_id p) (Number_js cv d)) products = Some p
        \<and> Number_js cv d \<notin> prod_id ` set cart \<longrightarrow>
        add_to_cart cv cart (Button d) =
          cart @ [\<lparr>prod_id = Number_js cv d, prod_name = prod_name p, price = price p,
                   image = image p, qty = 1\<rparr>])
   \<and> (find (\<lambda>p. strict_eq (prod_id p) (Number_js cv d)) products = None \<longrightarrow>
        add_to_cart cv cart (Button d) = cart)
   \<and> add_to_cart cv cart NotButton = cart"
proof (intro conjI impI)
  show "distinct (map prod_id (cart_after cv evs))"
    unfolding cart_after_def by (rule foldl_add_distinct) simp
  show "distinct (map prod_id cart) \<Longrightarrow> distinct (map prod_id (add_to_cart cv cart ev))"
    by (rule add_to_cart_distinct)
  show "add_to_cart cv cart (Button d) =
          map (\<lambda>y. if prod_id y = Number_js cv d then y\<lparr>qty := qty y + 1\<rparr> else y) cart"
    if h: "distinct (map prod_id cart)
        \<and> find (\<lambda>p. strict_eq (prod_id p) (Number_js cv d)) products = Some p
        \<and> Number_js cv d \<in> prod_id ` set cart"
  proof -
    from h have "Number_js cv d \<noteq> NaN"
      by (auto simp: find_Some_iff dest: strict_eq_NaN)
    with h show ?thesis
      by (simp add: add_to_cart_existing inc_first_distinct)
  qed
  show "add_to_cart cv cart (Button d) =
          cart @ [\<lparr>prod_id = Number_js cv d, prod_name = prod_name p, price = price p,
                   image = image p, qty = 1\<rparr>]"
    if h: "find (\<lambda>p. strict_eq (prod_id p) (Number_js cv d)) products = Some p
        \<and> Number_js cv d \<notin> prod_id ` set cart"
    using add_to_cart_new [of cv d p cart] h by simp
  show "add_to_cart cv cart (Button d) = cart"
    if "find (\<lambda>p. strict_eq (prod_id p) (Number_js cv d)) products = None"
    using that by (rule add_to_cart_no_product)
  show "add_to_cart cv cart NotButton = cart"
    by (simp add: add_to_cart_def)
qed

theorem cart_ids_distinct_witness:
  "map (\<lambda>x. (prod_name x, qty x))
      (cart_after digits_cv [Button (JStr ''1''), Button (JStr ''2''), Button (JStr ''9''),
                             NotButton])
     = [(''Honeycrisp Apples'', 1), (''Ataulfo Mangoes'', 1)]
   \<and> distinct (map prod_id
      (cart_after digits_cv [Button (JStr ''1''), Button (JStr ''2''), Button (JStr ''9''),
                             NotButton]))
   \<and> map (\<lambda>x. (prod_name x, qty x))
      (add_to_cart digits_cv
        (cart_after digits_cv [Button (JStr ''1''), Button (JStr ''2''), Button (JStr ''9''),
                               NotButton])
        (Button (JStr ''2'')))
     = [(''Honeycrisp Apples'', 1), (''Ataulfo Mangoes'', 2)]
   \<and> add_to_cart digits_cv
        (cart_after digits_cv [Button (JStr ''1''), Button (JStr ''2'')]) (Button (JStr ''9''))
     = cart_after digits_cv [Button (JStr ''1''), Button (JStr ''2'')]
   \<and> map prod_name (add_to_cart digits_cv [] (Button (JStr ''2''))) = [''Ataulfo Mangoes'']
   \<and> distinct (map prod_id
      (add_to_cart digits_cv
        (cart_after digits_cv [Button (JStr ''1''), Button (JStr ''2''), Button (JStr ''9''),
                               NotButton])
        (Button (JStr ''2''))))"
proof -
  let ?evs = "[Button (JStr ''1''), Button (JStr ''2''), Button (JStr ''9''), NotButton]"
  have c: "map (\<lambda>x. (prod_id x, prod_name x, qty x)) (cart_after digits_cv ?evs)
      = [(Num 1, ''Honeycrisp Apples'', 1), (Num 2, ''Ataulfo Mangoes'', 1)]"
    by (simp add: cart_after_def add_to_cart_def products_def strict_eq_def digits_cv_def)
  have c2: "cart_after digits_cv [Button (JStr ''1''), Button (JStr ''2'')]
      = cart_after digits_cv ?evs"
    by (simp add: cart_after_def add_to_cart_def products_def strict_eq_def digits_cv_def)
  have ids: "map prod_id (cart_after digits_cv ?evs) = [Num 1, Num 2]"
    using c [THEN arg_cong, of "map fst"] by (simp add: comp_def)
  have f2: "find (\<lambda>p. strict_eq (prod_id p) (Number_js digits_cv (JStr ''2''))) products
      = Some (products ! 1)"
    by (simp add: products_def strict_eq_def digits_cv_def)
  have f9: "find (\<lambda>p. strict_eq (prod_id p) (Number_js digits_cv (JStr ''9''))) products = None"
    by (simp add: products_def strict_eq_def digits_cv_def)
  have mem: "Number_js digits_cv (JStr ''2'') \<in> prod_id ` set (cart_after digits_cv ?evs)"
    using ids [THEN arg_cong, of set] by (simp add: digits_cv_def)
  have nomem: "Number_js digits_cv (JStr ''2'') \<notin> prod_id ` set ([] :: cart_item list)"
    by simp
  note t1 = cart_ids_distinct [of digits_cv ?evs "cart_after digits_cv ?evs" NotButton
      "JStr ''2''" "products ! 1"]
  note t2 = cart_ids_distinct [of digits_cv ?evs "cart_after digits_cv ?evs" NotButton
      "JStr ''9''" "products ! 1"]
  note t3 = cart_ids_distinct [of digits_cv ?evs "[]" NotButton "JStr ''2''" "products ! 1"]
  from t1 f2 mem have inc: "add_to_cart digits_cv (cart_after digits_cv ?evs) (Button (JStr ''2''))
     = map (\<lambda>y. if prod_id y = Number_js digits_cv (JStr ''2'') then y\<lparr>qty := qty y + 1\<rparr> else y)
         (cart_after digits_cv ?evs)"
    by blast
  from t2 f9 have none: "add_to_cart digits_cv (cart_after digits_cv ?evs) (Button (JStr ''9''))
     = cart_after digits_cv ?evs"
    by blast
  from t3 f2 nomem have new: "add_to_cart digits_cv [] (Button (JStr ''2''))
     = [] @ [\<lparr>prod_id = Number_js digits_cv (JStr ''2''), prod_name = prod_name (products ! 1),
              price = price (products ! 1), image = image (products ! 1), qty = 1\<rparr>]"
    by blast
  from t1 have d: "distinct (map prod_id (cart_after digits_cv ?evs))"
    by blast
  note t4 = cart_ids_distinct [of digits_cv ?evs "cart_after digits_cv ?evs"
      "Button (JStr ''2'')" "JStr ''2''" "products ! 1"]
  from t4 d have d2: "distinct (map prod_id
      (add_to_cart digits_cv (cart_after digits_cv ?evs) (Button (JStr ''2''))))"
    by blast
  have m: "map (\<lambda>x. (prod_name x, qty x))
      (map (\<lambda>y. if prod_id y = Number_js digits_cv (JStr ''2'') then y\<lparr>qty := qty y + 1\<rparr> else y)
         (cart_after digits_cv ?evs))
     = map (\<lambda>(i, n, q). if i = Num 2 then (n, q + 1) else (n, q))
         (map (\<lambda>x. (prod_id x, prod_name x, qty x)) (cart_after digits_cv ?evs))"
    by (simp add: digits_cv_def comp_def)
  have names: "map (\<lambda>x. (prod_name x, qty x)) (cart_after digits_cv ?evs)
     = map (\<lambda>(i, n, q). (n, q))
         (map (\<lambda>x. (prod_id x, prod_name x, qty x)) (cart_after digits_cv ?evs))"
    by (simp add: comp_def)
  have rest: "map (\<lambda>x. (prod_name x, qty x)) (cart_after digits_cv ?evs)
     = [(''Honeycrisp Apples'', 1), (''Ataulfo Mangoes'', 1)]
   \<and> map (\<lambda>x. (prod_name x, qty x))
      (add_to_cart digits_cv (cart_after digits_cv ?evs) (Button (JStr ''2'')))
     = [(''Honeycrisp Apples'', 1), (''Ataulfo Mangoes'', 2)]
   \<and> add_to_cart digits_cv
        (cart_after digits_cv [Button (JStr ''1''), Button (JStr ''2'')]) (Button (JStr ''9''))
     = cart_after digits_cv [Button (JStr ''1''), Button (JStr ''2'')]
   \<and> map prod_name (add_to_cart digits_cv [] (Button (JStr ''2''))) = [''Ataulfo Mangoes'']"
    unfolding inc m c2 none new names c
    by (simp add: products_def c2 none)
  from rest d d2 show ?thesis
    by blast
qed

end
